theory Spec2Isabelle
  imports Main "HOL-Library.Word"
begin

section \<open>C strings and the libc functions main.c calls on them\<close>

text \<open>
  A \<^verbatim>\<open>char*\<close> that main.c reads as a string is modelled by the bytes found from the
  pointer on; the string ends at the first NUL byte, or at the end of the list (where
  the terminator sits). A \<^verbatim>\<open>char\<close> array written by the code is a list of its
  declared length.
\<close>

definition NUL :: char where
  "NUL = CHR 0x00"

definition c_str :: "char list \<Rightarrow> string" where
  "c_str m = takeWhile (\<lambda>c. c \<noteq> NUL) m"

definition strlen :: "char list \<Rightarrow> nat" where
  "strlen m = length (c_str m)"

text \<open>The byte at an index of a string, the terminator past its end.\<close>

definition byte_at :: "char list \<Rightarrow> nat \<Rightarrow> char" where
  "byte_at m i = (if i < length m then m ! i else NUL)"

text \<open>\<^verbatim>\<open>isalpha\<close> and \<^verbatim>\<open>tolower\<close> of ctype.h in the "C" locale (main.c never calls setlocale).\<close>

definition isupper :: "char \<Rightarrow> bool" where
  "isupper c = (65 \<le> (of_char c :: nat) \<and> (of_char c :: nat) \<le> 90)"

definition islower :: "char \<Rightarrow> bool" where
  "islower c = (97 \<le> (of_char c :: nat) \<and> (of_char c :: nat) \<le> 122)"

definition isalpha :: "char \<Rightarrow> bool" where
  "isalpha c = (isupper c \<or> islower c)"

definition tolower :: "char \<Rightarrow> char" where
  "tolower c = (if isupper c then char_of ((of_char c :: nat) + 32) else c)"

text \<open>
  \<^verbatim>\<open>strncmp(a, b, n)\<close>: compares at most \<open>n\<close> bytes and stops behind a common NUL;
  the result is the difference of the first two bytes that differ, read as unsigned char.
\<close>

fun strncmp :: "char list \<Rightarrow> char list \<Rightarrow> nat \<Rightarrow> int" where
  "strncmp a b 0 = 0"
| "strncmp a b (Suc n) =
     (let x = byte_at a 0; y = byte_at b 0 in
      if x \<noteq> y then int (of_char x) - int (of_char y)
      else if x = NUL then 0
      else strncmp (tl a) (tl b) n)"

text \<open>\<^verbatim>\<open>strncasecmp(a, b, n)\<close>: the same on the lower-cased bytes.\<close>

fun strncasecmp :: "char list \<Rightarrow> char list \<Rightarrow> nat \<Rightarrow> int" where
  "strncasecmp a b 0 = 0"
| "strncasecmp a b (Suc n) =
     (let x = tolower (byte_at a 0); y = tolower (byte_at b 0) in
      if x \<noteq> y then int (of_char x) - int (of_char y)
      else if x = NUL then 0
      else strncasecmp (tl a) (tl b) n)"

section \<open>Faults\<close>

text \<open>
  A callback either returns or the process stops: \<open>Fatal\<close> is the end of the process
  through the fatal logger, \<open>UB\<close> an access outside an object or a \<^verbatim>\<open>free\<close> of
  something that is not allocated, which C leaves undefined.
\<close>

datatype fault = Fatal string | UB string

text \<open>
  Modelled from the spec: the \<^verbatim>\<open>FLOG\<close> macro of logging.h, which is not among the
  sources. Spec, section 7: "the process terminates immediately with a logged fatal
  message". main.c relies on it: after \<^verbatim>\<open>FLOG\<close> it dereferences the pointer it has
  just found to be NULL.
\<close>

definition FLOG :: "string \<Rightarrow> fault + 'a" where
  "FLOG msg = Inl (Fatal msg)"

text \<open>
  \<^verbatim>\<open>strncpy(dst, src, n)\<close> writes exactly \<open>n\<close> bytes at the start of \<open>dst\<close>: the
  string \<open>src\<close> cut at \<open>n\<close> bytes, padded with NUL bytes when it is shorter.
  \<^verbatim>\<open>dst[i] = v\<close> is \<open>store\<close>. Both are undefined outside the array.
\<close>

definition strncpy :: "char list \<Rightarrow> char list \<Rightarrow> nat \<Rightarrow> fault + char list" where
  "strncpy dst src n =
     (if n \<le> length dst
      then Inr (take n (c_str src) @ replicate (n - strlen src) NUL @ drop n dst)
      else Inl (UB ''strncpy past the end of the destination''))"

definition store :: "char list \<Rightarrow> nat \<Rightarrow> char \<Rightarrow> fault + char list" where
  "store dst i v =
     (if i < length dst then Inr (dst[i := v])
      else Inl (UB ''store past the end of the array''))"

section \<open>hostname_from_uri\<close>

text \<open>
  The loop \<^verbatim>\<open>while (*end && *end != '/') { end++; }\<close>: the number of bytes it
  steps over, that is \<^verbatim>\<open>end - uri\<close> when it stops.
\<close>

fun host_end :: "char list \<Rightarrow> nat" where
  "host_end [] = 0"
| "host_end (c # cs) = (if c \<noteq> NUL \<and> c \<noteq> CHR ''/'' then Suc (host_end cs) else 0)"

text \<open>
  \<^verbatim>\<open>hostname_from_uri(uri, hostname, hostname_len)\<close>. The result is the returned int
  and the array \<open>hostname\<close> as the call leaves it.
\<close>

definition hostname_from_uri :: "char list \<Rightarrow> char list \<Rightarrow> int \<Rightarrow> fault + (int \<times> char list)" where
  "hostname_from_uri uri hostname hostname_len =
     (if strncmp uri ''https://'' 8 \<noteq> 0 then Inr (0, hostname)
      else
        let uri' = drop 8 uri;
            n = host_end uri'
        in if int n \<ge> hostname_len then Inr (0, hostname)
           else if n = 0 then Inr (0, hostname)
           else if \<not> isalpha (byte_at uri' (n - 1)) then Inr (0, hostname)
           else (case strncpy hostname uri' n of
                   Inl f \<Rightarrow> Inl f
                 | Inr h \<Rightarrow> (case store h n NUL of
                     Inl f \<Rightarrow> Inl f
                   | Inr h' \<Rightarrow> Inr (1, h'))))"

section \<open>proxy_supports_name_resolution\<close>

definition ptypes :: "string list" where
  "ptypes = [''http:'', ''https:'', ''socks4a:'', ''socks5h:'']"

text \<open>The \<^verbatim>\<open>for\<close> loop over \<^verbatim>\<open>ptypes\<close>, from an index on.\<close>

fun ptypes_loop :: "char list \<Rightarrow> string list \<Rightarrow> int" where
  "ptypes_loop proxy [] = 0"
| "ptypes_loop proxy (t # ts) =
     (if strncasecmp proxy t (strlen t) = 0 then 1 else ptypes_loop proxy ts)"

text \<open>\<open>None\<close> is the NULL pointer.\<close>

definition proxy_supports_name_resolution :: "char list option \<Rightarrow> int" where
  "proxy_supports_name_resolution proxy =
     (case proxy of None \<Rightarrow> 0 | Some p \<Rightarrow> ptypes_loop p ptypes)"

section \<open>The state the callbacks share\<close>

text \<open>
  Pointers are addresses; \<open>NULL\<close> is address 0. A pointer to a \<^verbatim>\<open>struct curl_slist\<close>
  is modelled by the list of the \<^verbatim>\<open>data\<close> fields of the nodes reachable from it: NULL is
  the empty list, and a node whose \<^verbatim>\<open>data\<close> is NULL holds \<open>None\<close>.
\<close>

type_synonym ptr = nat

definition NULL :: ptr where
  "NULL = 0"

type_synonym curl_slist = "string option list"

record app_state_t =
  https_client :: ptr
  resolv :: curl_slist
  resolver_url :: "char list"
  using_dns_poller :: "8 word"

record request_t =
  tx_id :: "16 word"
  raddr :: "char list"
  dns_server :: ptr
  dns_req :: ptr

text \<open>
  Of \<^verbatim>\<open>dns_server_t\<close> (dns_server.h) main.c reads one field, \<^verbatim>\<open>addrlen\<close>.
  \<^verbatim>\<open>struct sockaddr_storage\<close> is 128 bytes (\<^verbatim>\<open>_SS_SIZE\<close> of the system headers).
\<close>

record dns_server_t =
  addrlen :: nat

definition sizeof_sockaddr_storage :: nat where
  "sizeof_sockaddr_storage = 128"

text \<open>What \<^verbatim>\<open>malloc\<close> and \<^verbatim>\<open>calloc\<close> hand out: request records and query buffers.\<close>

datatype obj = Req request_t | Buf "char list"

text \<open>
  The calls that leave main.c, in the order they are made. \<^verbatim>\<open>https_client_fetch\<close>
  is always given \<^verbatim>\<open>https_resp_cb\<close> as its callback, so the event does not repeat it;
  its last argument is the context pointer. \<open>Free\<close> is a \<^verbatim>\<open>free\<close> that releases an
  object. \<^verbatim>\<open>DLOG\<close> and \<^verbatim>\<open>ILOG\<close> output is left out.
\<close>

datatype event =
    is_wlog: WLOG string
  | is_free: Free ptr
  | is_fetch: Https_client_fetch ptr "char list" ptr nat curl_slist ptr
  | is_respond: Dns_server_respond ptr "char list" "char list" nat
  | is_free_all: Curl_slist_free_all curl_slist

record world =
  app :: app_state_t
  heap :: "ptr \<rightharpoonup> obj"
  servers :: "ptr \<rightharpoonup> dns_server_t"
  trace :: "event list"

definition emit :: "event \<Rightarrow> world \<Rightarrow> world" where
  "emit e w = w\<lparr>trace := trace w @ [e]\<rparr>"

text \<open>
  \<^verbatim>\<open>free(p)\<close>: nothing for NULL, the release of a live object, undefined otherwise
  (a second \<^verbatim>\<open>free\<close> of the same pointer is this last case).
\<close>

definition free :: "ptr \<Rightarrow> world \<Rightarrow> fault + world" where
  "free p w =
     (if p = NULL then Inr w
      else case heap w p of
        None \<Rightarrow> Inl (UB ''free of a pointer that is not allocated'')
      | Some _ \<Rightarrow> Inr (emit (Free p) (w\<lparr>heap := (heap w)(p := None)\<rparr>)))"

text \<open>
  \<^verbatim>\<open>calloc(1, sizeof(request_t))\<close>. The address \<open>p\<close> is the allocator's choice, NULL
  when it is out of memory; the record it hands out is all zero.
\<close>

definition zero_request :: request_t where
  "zero_request =
     \<lparr>tx_id = 0, raddr = replicate sizeof_sockaddr_storage NUL, dns_server = NULL, dns_req = NULL\<rparr>"

definition calloc_request_t :: "ptr \<Rightarrow> world \<Rightarrow> world" where
  "calloc_request_t p w = (if p = NULL then w else w\<lparr>heap := (heap w)(p \<mapsto> Req zero_request)\<rparr>)"

text \<open>\<^verbatim>\<open>memcpy(dst, src, n)\<close>: undefined when either object is shorter than \<open>n\<close>.\<close>

definition memcpy :: "char list \<Rightarrow> char list \<Rightarrow> nat \<Rightarrow> fault + char list" where
  "memcpy dst src n =
     (if n \<le> length dst \<and> n \<le> length src then Inr (take n src @ drop n dst)
      else Inl (UB ''memcpy outside an object''))"

section \<open>dns_server_cb and https_resp_cb\<close>

text \<open>
  \<^verbatim>\<open>dns_server_cb(dns_server, data, addr, tx_id, dns_req, dns_req_len)\<close>. \<open>data\<close> is
  \<^verbatim>\<open>&app\<close>, the \<open>app\<close> of the world; \<open>addr\<close> is the bytes of the address object;
  \<open>new_req\<close> is what \<^verbatim>\<open>calloc\<close> returns if the callback gets that far. The
  parameters \<open>srv\<close>, \<open>tx\<close>, \<open>req_buf\<close> and \<open>req_len\<close> are \<^verbatim>\<open>dns_server\<close>,
  \<^verbatim>\<open>tx_id\<close>, \<^verbatim>\<open>dns_req\<close> and \<^verbatim>\<open>dns_req_len\<close> of the source, whose names the fields
  of \<open>request_t\<close> have taken.
  \<open>not_bootstrapped\<close> is the condition of the \<^verbatim>\<open>if\<close> at line 101:
  \<^verbatim>\<open>app->using_dns_poller && (app->resolv == NULL || app->resolv->data == NULL)\<close>.
\<close>

definition not_bootstrapped :: "app_state_t \<Rightarrow> bool" where
  "not_bootstrapped a =
     (using_dns_poller a \<noteq> 0 \<and> (case resolv a of [] \<Rightarrow> True | d # _ \<Rightarrow> d = None))"

definition dns_server_cb ::
    "ptr \<Rightarrow> char list \<Rightarrow> 16 word \<Rightarrow> ptr \<Rightarrow> nat \<Rightarrow> ptr \<Rightarrow> world \<Rightarrow> fault + world" where
  "dns_server_cb srv addr tx req_buf req_len new_req w =
     (if not_bootstrapped (app w)
      then free req_buf
             (emit (WLOG ''Query received before bootstrapping is completed, discarding.'') w)
      else
        let w1 = calloc_request_t new_req w; req = new_req in
        if req = NULL then FLOG ''Out of mem''
        else (case servers w1 srv of
            None \<Rightarrow> Inl (UB ''dns_server does not point to a dns_server_t'')
          | Some s \<Rightarrow>
              (case memcpy (raddr zero_request) addr (addrlen s) of
                 Inl f \<Rightarrow> Inl f
               | Inr ra \<Rightarrow>
                   let r = zero_request\<lparr>tx_id := tx, raddr := ra, dns_server := srv,
                                          dns_req := req_buf\<rparr>;
                       w2 = w1\<lparr>heap := (heap w1)(req \<mapsto> Req r)\<rparr>
                   in Inr (emit (Https_client_fetch (https_client (app w2)) (resolver_url (app w2))
                                   req_buf req_len (resolv (app w2)) req) w2))))"

text \<open>
  \<^verbatim>\<open>https_resp_cb(data, buf, buflen)\<close>. \<open>buf\<close> is the response body, \<open>None\<close> for the
  NULL pointer.
\<close>

definition https_resp_cb :: "ptr \<Rightarrow> char list option \<Rightarrow> nat \<Rightarrow> world \<Rightarrow> fault + world" where
  "https_resp_cb data buf buflen w =
     (let req = data in
      if req = NULL then FLOG ''data NULL''
      else (case heap w req of
          Some (Req r) \<Rightarrow>
            let w1 = (case buf of
                        None \<Rightarrow> w
                      | Some b \<Rightarrow> emit (Dns_server_respond (dns_server r) (raddr r) b buflen) w)
            in (case free (dns_req r) w1 of
                  Inl f \<Rightarrow> Inl f
                | Inr w2 \<Rightarrow> free req w2)
        | _ \<Rightarrow> Inl (UB ''data does not point to a live request_t'')))"

section \<open>dns_poll_cb\<close>

text \<open>Bytes written into an array from an offset on; undefined past its end.\<close>

definition write_at :: "char list \<Rightarrow> nat \<Rightarrow> char list \<Rightarrow> fault + char list" where
  "write_at dst pos bytes =
     (if pos + length bytes \<le> length dst
      then Inr (take pos dst @ bytes @ drop (pos + length bytes) dst)
      else Inl (UB ''write past the end of the array''))"

text \<open>
  \<^verbatim>\<open>snprintf(dst, n, fmt, ...)\<close>, given the text \<open>s\<close> the format expands to: it
  writes at most \<open>n - 1\<close> bytes of it and a NUL.
\<close>

definition snprintf :: "char list \<Rightarrow> nat \<Rightarrow> string \<Rightarrow> fault + char list" where
  "snprintf dst n s =
     (if n = 0 then Inr dst else write_at dst 0 (take (n - 1) s @ [NUL]))"

text \<open>
  \<^verbatim>\<open>ares_inet_ntop(af, src, dst, n)\<close> of c-ares, given the text form \<open>ip\<close> of the
  address \<open>(af, src)\<close>: it stores the text and a NUL at \<open>dst\<close> when they fit into
  \<open>n\<close> bytes, and stores nothing (returning NULL with ENOSPC) when they do not.
  \<open>dst\<close> is the array \<open>m\<close> from offset \<open>pos\<close> on.
\<close>

definition ares_inet_ntop :: "string \<Rightarrow> char list \<Rightarrow> nat \<Rightarrow> nat \<Rightarrow> fault + char list" where
  "ares_inet_ntop ip m pos n =
     (if length ip < n then write_at m pos (ip @ [NUL]) else Inr m)"

text \<open>
  \<^verbatim>\<open>curl_slist_free_all\<close> and \<^verbatim>\<open>curl_slist_append\<close> of libcurl. The first is recorded
  with the list it releases. The second copies the string into a new last node; that
  libcurl itself may run out of memory there is not modelled.
\<close>

definition curl_slist_free_all :: "curl_slist \<Rightarrow> world \<Rightarrow> world" where
  "curl_slist_free_all l w = emit (Curl_slist_free_all l) w"

definition curl_slist_append :: "curl_slist \<Rightarrow> char list \<Rightarrow> curl_slist" where
  "curl_slist_append l s = l @ [Some (c_str s)]"

text \<open>
  \<^verbatim>\<open>dns_poll_cb(hostname, data, addr, af)\<close>. \<open>data\<close> is \<^verbatim>\<open>&app.resolv\<close>, the slot
  \<open>resolv (app w)\<close>; \<open>ip\<close> is the text form of \<open>(af, addr)\<close>.
\<close>

definition dns_poll_cb :: "char list \<Rightarrow> string \<Rightarrow> world \<Rightarrow> fault + world" where
  "dns_poll_cb hostname ip w =
     (let buf = replicate 280 NUL in
      if strlen hostname > 254 then FLOG ''Hostname too long.''
      else (case snprintf buf (280 - 1) (c_str hostname @ '':443:'') of
          Inl f \<Rightarrow> Inl f
        | Inr buf1 \<Rightarrow>
            let pos = strlen buf1 in
            (case ares_inet_ntop ip buf1 pos (280 - 1 - pos) of
               Inl f \<Rightarrow> Inl f
             | Inr buf2 \<Rightarrow>
                 let w1 = curl_slist_free_all (resolv (app w)) w in
                 Inr (w1\<lparr>app := (app w1)\<lparr>resolv := curl_slist_append [] buf2\<rparr>\<rparr>))))"

section \<open>main: the start of the poller, and the reactor\<close>

text \<open>\<^verbatim>\<open>app\<close> as main fills it in before the reactor runs (lines 175 to 179).\<close>

definition app_init :: "ptr \<Rightarrow> char list \<Rightarrow> app_state_t" where
  "app_init client url =
     \<lparr>https_client = client, resolv = [], resolver_url = url, using_dns_poller = 0\<rparr>"

text \<open>
  Lines 208 to 221 of main: \<open>hostname\<close> is the array \<^verbatim>\<open>char hostname[255]\<close> as it
  happens to be on the stack. The result is \<open>app\<close> and, when \<^verbatim>\<open>dns_poller_init\<close> is
  called, the host name it is called with.
\<close>

definition main_dns_poller ::
    "char list option \<Rightarrow> char list \<Rightarrow> app_state_t \<Rightarrow> fault + (app_state_t \<times> string option)" where
  "main_dns_poller curl_proxy hostname a =
     (if proxy_supports_name_resolution curl_proxy = 0
      then (case hostname_from_uri (resolver_url a) hostname 254 of
          Inl f \<Rightarrow> Inl f
        | Inr (r, h) \<Rightarrow>
            if r \<noteq> 0 then Inr (a\<lparr>using_dns_poller := 1\<rparr>, Some (c_str h))
            else Inr (a, None))
      else Inr (a, None))"

text \<open>
  \<^verbatim>\<open>ev_run\<close>: the reactor calls the callbacks main registered, one at a time, in
  the order the events arrive. Which events arrive is the environment's choice.
\<close>

datatype input =
    is_query: Dns_query ptr "char list" "16 word" (query_buf: ptr) nat ptr
  | is_done: Https_done ptr "char list option" nat
  | is_resolved: Dns_resolved "char list" string

fun dispatch :: "input \<Rightarrow> world \<Rightarrow> fault + world" where
  "dispatch (Dns_query srv addr tx req_buf req_len new_req) w =
     dns_server_cb srv addr tx req_buf req_len new_req w"
| "dispatch (Https_done data buf buflen) w = https_resp_cb data buf buflen w"
| "dispatch (Dns_resolved hostname ip) w = dns_poll_cb hostname ip w"

fun ev_run :: "input list \<Rightarrow> world \<Rightarrow> fault + world" where
  "ev_run [] w = Inr w"
| "ev_run (i # ins) w = (case dispatch i w of Inl f \<Rightarrow> Inl f | Inr w' \<Rightarrow> ev_run ins w')"

text \<open>
  The world when main enters \<^verbatim>\<open>ev_run\<close>: \<open>app\<close> as set up, the one
  \<^verbatim>\<open>dns_server_t\<close> of main, nothing allocated by the callbacks, nothing called yet.
\<close>

definition start_world :: "app_state_t \<Rightarrow> ptr \<Rightarrow> dns_server_t \<Rightarrow> world" where
  "start_world a srv s = \<lparr>app = a, heap = Map.empty, servers = [srv \<mapsto> s], trace = []\<rparr>"

text \<open>
  A host name of 245 bytes in four labels, none longer than 63 bytes, and the text of an
  IPv6 address of 36 bytes: the inputs of an example below.
\<close>

definition long_hostname :: string where
  "long_hostname =
     replicate 63 CHR ''a'' @ ''.'' @ replicate 63 CHR ''b'' @ ''.'' @ replicate 63 CHR ''c'' @ ''.'' @
     replicate 45 CHR ''d'' @ ''.example''"

definition long_ip :: string where
  "long_ip = ''2001:db8:85a3:8d3:1319:8a2e:370:7348''"

text \<open>
  The source address as \<^verbatim>\<open>dns_server_cb\<close> records it: the first \<^verbatim>\<open>addrlen\<close> bytes of
  the address object, in a \<^verbatim>\<open>sockaddr_storage\<close> that is zero otherwise.
\<close>

definition recorded_addr :: "dns_server_t \<Rightarrow> char list \<Rightarrow> char list" where
  "recorded_addr s addr =
     take (addrlen s) addr @ replicate (sizeof_sockaddr_storage - addrlen s) NUL"

section \<open>Notions of the specification\<close>

text \<open>
  The host component of an \<^verbatim>\<open>https://\<close> URL: the bytes behind the eight bytes of the
  scheme, up to the path separator or the end of the string.
\<close>

definition host_component :: "char list \<Rightarrow> string" where
  "host_component uri = takeWhile (\<lambda>c. c \<noteq> NUL \<and> c \<noteq> CHR ''/'') (drop 8 uri)"

text \<open>
  A string begins with a prefix case-insensitively: it is at least as long, and byte by
  byte the two agree or are the upper-case and the lower-case form of one letter.
\<close>

definition same_letter :: "char \<Rightarrow> char \<Rightarrow> bool" where
  "same_letter a b =
     (a = b \<or> (isupper a \<and> (of_char b :: nat) = of_char a + 32)
            \<or> (isupper b \<and> (of_char a :: nat) = of_char b + 32))"

definition begins_ci :: "char list \<Rightarrow> string \<Rightarrow> bool" where
  "begins_ci p t =
     (length t \<le> strlen p \<and> list_all2 same_letter (take (length t) (c_str p)) t)"

section \<open>Facts about the string functions\<close>

lemma host_end_takeWhile: "host_end m = length (takeWhile (\<lambda>c. c \<noteq> NUL \<and> c \<noteq> CHR ''/'') m)"
  by (induction m) auto

lemma c_str_Nil: "c_str [] = []" by (simp add: c_str_def)
lemma c_str_Cons: "c_str (c # cs) = (if c = NUL then [] else c # c_str cs)" by (simp add: c_str_def)

lemma byte_at_0_Cons: "byte_at (c # cs) 0 = c" by (simp add: byte_at_def)
lemma byte_at_0_Nil: "byte_at [] 0 = NUL" by (simp add: byte_at_def)

lemma strncmp_0_iff: "strncmp a b n = 0 \<longleftrightarrow> take n (c_str a) = take n (c_str b)"
proof (induction n arbitrary: a b)
  case 0
  then show ?case by simp
next
  case (Suc n)
  show ?case
  proof (cases a; cases b)
  qed (auto simp: c_str_Cons c_str_Nil byte_at_0_Cons byte_at_0_Nil Suc Let_def)
qed

lemma of_char_tolower:
  "(of_char (tolower c) :: nat) = (if isupper c then of_char c + 32 else of_char c)"
  by (simp add: tolower_def isupper_def)

lemma char_eq_nat: "a = b \<longleftrightarrow> (of_char a :: nat) = of_char b"
  by simp

lemma tolower_NUL_iff: "tolower c = NUL \<longleftrightarrow> c = NUL"
proof -
  have z: "(of_char NUL :: nat) = 0" by (simp add: NUL_def)
  have "tolower c = NUL \<longleftrightarrow> (of_char (tolower c) :: nat) = 0"
    unfolding z [symmetric] by simp
  also have "\<dots> \<longleftrightarrow> (of_char c :: nat) = 0"
    by (simp add: of_char_tolower isupper_def)
  also have "\<dots> \<longleftrightarrow> c = NUL"
    unfolding z [symmetric] by simp
  finally show ?thesis .
qed

lemma tolower_same_letter: "tolower a = tolower b \<longleftrightarrow> same_letter a b"
proof -
  have "tolower a = tolower b \<longleftrightarrow> (of_char (tolower a) :: nat) = of_char (tolower b)"
    by simp
  also have "\<dots> \<longleftrightarrow> ((of_char a :: nat) = of_char b
       \<or> (isupper a \<and> (of_char b :: nat) = of_char a + 32)
       \<or> (isupper b \<and> (of_char a :: nat) = of_char b + 32))"
    unfolding of_char_tolower by (auto simp: isupper_def)
  also have "\<dots> \<longleftrightarrow> same_letter a b"
    unfolding same_letter_def by simp
  finally show ?thesis .
qed

lemma tolower_NUL: "tolower NUL = NUL"
  by (simp add: tolower_NUL_iff)

lemma strncasecmp_0_iff:
  "strncasecmp a b n = 0 \<longleftrightarrow> map tolower (take n (c_str a)) = map tolower (take n (c_str b))"
proof (induction n arbitrary: a b)
  case 0
  then show ?case by simp
next
  case (Suc n)
  show ?case
  proof (cases a; cases b)
  qed (auto simp: c_str_Cons c_str_Nil byte_at_0_Cons byte_at_0_Nil Suc Let_def tolower_NUL_iff
        tolower_NUL_iff [THEN iffD1, OF sym] tolower_NUL)
qed

lemma map_tolower_eq_iff:
  "map tolower xs = map tolower ys \<longleftrightarrow> list_all2 same_letter xs ys"
  by (auto simp: list_eq_iff_nth_eq list_all2_conv_all_nth tolower_same_letter)

lemma strncasecmp_begins_ci:
  assumes "NUL \<notin> set t"
  shows "strncasecmp p t (strlen t) = 0 \<longleftrightarrow> begins_ci p t"
proof -
  have ct: "c_str t = t" using assms by (auto simp: c_str_def)
  have "list_all2 same_letter (take (length t) (c_str p)) t \<Longrightarrow> length t \<le> length (c_str p)"
    by (auto dest!: list_all2_lengthD)
  then show ?thesis
    by (auto simp: strncasecmp_0_iff map_tolower_eq_iff strlen_def ct begins_ci_def)
qed

lemma proxy_supports_iff:
  "proxy_supports_name_resolution proxy =
     (if \<exists>p. proxy = Some p \<and> (begins_ci p ''http:'' \<or> begins_ci p ''https:'' \<or>
             begins_ci p ''socks4a:'' \<or> begins_ci p ''socks5h:'') then 1 else 0)"
proof (cases proxy)
  case None
  then show ?thesis by (simp add: proxy_supports_name_resolution_def)
next
  case (Some p)
  have a: "strncasecmp p ''http:'' (strlen ''http:'') = 0 \<longleftrightarrow> begins_ci p ''http:''"
    by (rule strncasecmp_begins_ci) (simp add: NUL_def)
  have b: "strncasecmp p ''https:'' (strlen ''https:'') = 0 \<longleftrightarrow> begins_ci p ''https:''"
    by (rule strncasecmp_begins_ci) (simp add: NUL_def)
  have c: "strncasecmp p ''socks4a:'' (strlen ''socks4a:'') = 0 \<longleftrightarrow> begins_ci p ''socks4a:''"
    by (rule strncasecmp_begins_ci) (simp add: NUL_def)
  have d: "strncasecmp p ''socks5h:'' (strlen ''socks5h:'') = 0 \<longleftrightarrow> begins_ci p ''socks5h:''"
    by (rule strncasecmp_begins_ci) (simp add: NUL_def)
  show ?thesis
    using Some a b c d by (simp add: proxy_supports_name_resolution_def ptypes_def)
qed

lemma strncmp_https: "strncmp uri ''https://'' 8 = 0 \<longleftrightarrow> take 8 (c_str uri) = ''https://''"
  by (simp add: strncmp_0_iff c_str_def NUL_def)

lemma take_c_str_host:
  "take (length (takeWhile (\<lambda>c. c \<noteq> NUL \<and> Q c) m)) (c_str m) = takeWhile (\<lambda>c. c \<noteq> NUL \<and> Q c) m"
  by (induction m) (auto simp: c_str_Cons c_str_Nil)

lemma host_le_strlen: "length (takeWhile (\<lambda>c. c \<noteq> NUL \<and> Q c) m) \<le> strlen m"
  unfolding strlen_def by (induction m) (auto simp: c_str_Cons c_str_Nil)

lemma byte_at_last_host:
  assumes "takeWhile P m \<noteq> []"
  shows "byte_at m (length (takeWhile P m) - Suc 0) = last (takeWhile P m)"
proof -
  let ?h = "takeWhile P m"
  have lt: "length ?h - Suc 0 < length ?h" using assms by (cases ?h) auto
  have "length ?h \<le> length m" by (rule length_takeWhile_le)
  with lt have "byte_at m (length ?h - Suc 0) = m ! (length ?h - Suc 0)" by (simp add: byte_at_def)
  also have "\<dots> = ?h ! (length ?h - Suc 0)" using lt by (simp add: takeWhile_nth)
  also have "\<dots> = last ?h" using assms by (simp add: last_conv_nth)
  finally show ?thesis .
qed

section \<open>What hostname_from_uri computes\<close>

lemma hostname_from_uri_reject:
  assumes "\<not> (take 8 (c_str uri) = ''https://'' \<and> host_component uri \<noteq> [] \<and>
             int (length (host_component uri)) < len \<and> isalpha (last (host_component uri)))"
  shows "hostname_from_uri uri buf len = Inr (0, buf)"
  using assms
  by (auto simp: hostname_from_uri_def strncmp_https host_end_takeWhile Let_def host_component_def
        byte_at_last_host)

lemma hostname_from_uri_accept:
  assumes "take 8 (c_str uri) = ''https://''" "host_component uri \<noteq> []"
    "int (length (host_component uri)) < len" "isalpha (last (host_component uri))"
    "length (host_component uri) < length buf"
  shows "hostname_from_uri uri buf len =
           Inr (1, host_component uri @ NUL # drop (Suc (length (host_component uri))) buf)"
proof -
  let ?u = "drop 8 uri"
  let ?h = "host_component uri"
  have cp: "strncpy buf ?u (length ?h) = Inr (?h @ drop (length ?h) buf)"
    using assms(5) host_le_strlen [of "\<lambda>c. c \<noteq> CHR ''/''" ?u]
      take_c_str_host [of "\<lambda>c. c \<noteq> CHR ''/''" ?u]
    by (simp add: strncpy_def host_component_def)
  have st: "store (?h @ drop (length ?h) buf) (length ?h) NUL =
              Inr (?h @ NUL # drop (Suc (length ?h)) buf)"
    using assms(5) by (simp add: store_def list_update_append upd_conv_take_nth_drop)
  have bl: "byte_at ?u (length ?h - Suc 0) = last ?h"
    using assms(2) byte_at_last_host [of "\<lambda>c. c \<noteq> NUL \<and> c \<noteq> CHR ''/''" ?u]
    by (simp add: host_component_def)
  show ?thesis
    using assms(1-4) cp st bl
    by (simp add: hostname_from_uri_def strncmp_https host_end_takeWhile Let_def
        host_component_def [symmetric])
qed

lemma host_no_NUL: "NUL \<notin> set (host_component uri)"
  by (auto simp: host_component_def dest: set_takeWhileD)

lemma c_str_no_NUL: "NUL \<notin> set (c_str m)"
  by (auto simp: c_str_def dest: set_takeWhileD)

lemma c_str_append: "NUL \<notin> set a \<Longrightarrow> c_str (a @ b) = a @ c_str b"
  by (induction a) (auto simp: c_str_Cons)

lemma c_str_NUL_Cons: "c_str (NUL # m) = []"
  by (simp add: c_str_Cons)

lemma c_str_host_buf: "c_str (host_component uri @ NUL # rest) = host_component uri"
  by (simp add: c_str_append host_no_NUL c_str_NUL_Cons)

section \<open>The two resolver URLs of the specification's parsing scenario\<close>

lemma dns_google_accept:
  assumes "length hostname = 255"
  shows "hostname_from_uri ''https://dns.google/resolve'' hostname 254 =
           Inr (1, ''dns.google'' @ NUL # drop 11 hostname)"
proof -
  let ?U = "''https://dns.google/resolve''"
  have h: "host_component ?U = ''dns.google''"
    by (simp add: host_component_def NUL_def)
  have n: "Suc (length (host_component ?U)) = 11"
    unfolding h by simp
  have "hostname_from_uri ?U hostname 254 =
          Inr (1, host_component ?U @ NUL # drop (Suc (length (host_component ?U))) hostname)"
    by (rule hostname_from_uri_accept)
       (simp_all add: h assms c_str_def NUL_def isalpha_def isupper_def islower_def)
  then show ?thesis unfolding n unfolding h .
qed

lemma quad8_reject: "hostname_from_uri ''https://8.8.8.8/resolve'' hostname 254 = Inr (0, hostname)"
proof -
  have h: "host_component ''https://8.8.8.8/resolve'' = ''8.8.8.8''"
    by (simp add: host_component_def NUL_def)
  show ?thesis
    by (rule hostname_from_uri_reject) (simp add: h isalpha_def isupper_def islower_def)
qed

text \<open>
  Claim C5. With the 255-byte array of main and \<^verbatim>\<open>hostname_len = 254\<close>,
  \<^verbatim>\<open>hostname_from_uri\<close> returns 1 on \<^verbatim>\<open>https://dns.google/resolve\<close> and leaves the
  string \<^verbatim>\<open>dns.google\<close> in the array, and returns 0 on \<^verbatim>\<open>https://8.8.8.8/resolve\<close>,
  leaving the array as it was. In main, when the configured proxy does not resolve names
  itself, the first URL sets \<^verbatim>\<open>using_dns_poller\<close> to 1 and starts the poller for
  \<^verbatim>\<open>dns.google\<close>; the second starts no poller and leaves the flag 0.
\<close>

theorem hostname_parsing_scenario:
  assumes "length hostname = 255" and "proxy_supports_name_resolution curl_proxy = 0"
  shows "hostname_from_uri ''https://dns.google/resolve'' hostname 254 =
           Inr (1, ''dns.google'' @ NUL # drop 11 hostname)
       \<and> c_str (''dns.google'' @ NUL # drop 11 hostname) = ''dns.google''
       \<and> main_dns_poller curl_proxy hostname (app_init client ''https://dns.google/resolve'') =
           Inr ((app_init client ''https://dns.google/resolve'')\<lparr>using_dns_poller := 1\<rparr>,
                Some ''dns.google'')
       \<and> hostname_from_uri ''https://8.8.8.8/resolve'' hostname 254 = Inr (0, hostname)
       \<and> main_dns_poller curl_proxy hostname (app_init client ''https://8.8.8.8/resolve'') =
           Inr (app_init client ''https://8.8.8.8/resolve'', None)"
proof -
  note a = dns_google_accept [OF assms(1)]
  have b: "c_str (''dns.google'' @ NUL # drop 11 hostname) = ''dns.google''"
    by (simp add: c_str_def NUL_def)
  note c = quad8_reject [of hostname]
  have d: "main_dns_poller curl_proxy hostname (app_init client ''https://dns.google/resolve'') =
           Inr ((app_init client ''https://dns.google/resolve'')\<lparr>using_dns_poller := 1\<rparr>,
                Some ''dns.google'')"
    using a b assms(2) by (simp add: main_dns_poller_def app_init_def)
  have e: "main_dns_poller curl_proxy hostname (app_init client ''https://8.8.8.8/resolve'') =
           Inr (app_init client ''https://8.8.8.8/resolve'', None)"
    using c assms(2) by (simp add: main_dns_poller_def app_init_def)
  from a b c d e show ?thesis by blast
qed

theorem hostname_parsing_scenario_witness:
  "length (replicate 255 NUL) = 255 \<and> proxy_supports_name_resolution None = 0
   \<and> hostname_from_uri ''https://dns.google/resolve'' (replicate 255 NUL) 254 =
           Inr (1, ''dns.google'' @ replicate 245 NUL)
   \<and> main_dns_poller None (replicate 255 NUL) (app_init 1 ''https://dns.google/resolve'') =
           Inr ((app_init 1 ''https://dns.google/resolve'')\<lparr>using_dns_poller := 1\<rparr>,
                Some ''dns.google'')
   \<and> hostname_from_uri ''https://8.8.8.8/resolve'' (replicate 255 NUL) 254 =
           Inr (0, replicate 255 NUL)
   \<and> main_dns_poller None (replicate 255 NUL) (app_init 1 ''https://8.8.8.8/resolve'') =
           Inr (app_init 1 ''https://8.8.8.8/resolve'', None)"
proof -
  have p: "proxy_supports_name_resolution None = 0"
    by (simp add: proxy_supports_name_resolution_def)
  have r: "NUL # replicate 244 NUL = replicate 245 NUL"
    by (simp add: replicate_Suc [symmetric] del: replicate_Suc)
  show ?thesis
    using hostname_parsing_scenario [of "replicate 255 NUL" None 1] p r by simp
qed

section \<open>When main starts the poller\<close>

lemma main_dns_poller_eq:
  assumes "length hostname = 255"
  shows "main_dns_poller curl_proxy hostname a =
          (if proxy_supports_name_resolution curl_proxy = 0 \<and>
              take 8 (c_str (resolver_url a)) = ''https://'' \<and> host_component (resolver_url a) \<noteq> [] \<and>
              length (host_component (resolver_url a)) < 254 \<and>
              isalpha (last (host_component (resolver_url a)))
           then Inr (a\<lparr>using_dns_poller := 1\<rparr>, Some (host_component (resolver_url a)))
           else Inr (a, None))"
proof (cases "take 8 (c_str (resolver_url a)) = ''https://'' \<and> host_component (resolver_url a) \<noteq> [] \<and>
              int (length (host_component (resolver_url a))) < 254 \<and>
              isalpha (last (host_component (resolver_url a)))")
  case True
  then have "hostname_from_uri (resolver_url a) hostname 254 =
      Inr (1, host_component (resolver_url a) @ NUL #
              drop (Suc (length (host_component (resolver_url a)))) hostname)"
    using assms by (intro hostname_from_uri_accept) simp_all
  with True show ?thesis
    by (simp add: main_dns_poller_def c_str_host_buf)
next
  case False
  then have "hostname_from_uri (resolver_url a) hostname 254 = Inr (0, hostname)"
    by (rule hostname_from_uri_reject)
  with False show ?thesis
    by (auto simp: main_dns_poller_def)
qed

text \<open>
  Claim C7. \<^verbatim>\<open>proxy_supports_name_resolution\<close> returns 1 exactly when the proxy string
  is not NULL and begins, case-insensitively, with \<^verbatim>\<open>http:\<close>, \<^verbatim>\<open>https:\<close>,
  \<^verbatim>\<open>socks4a:\<close> or \<^verbatim>\<open>socks5h:\<close>, and 0 otherwise. Starting from the \<^verbatim>\<open>app\<close>
  main has set up, main starts the poller and sets \<^verbatim>\<open>using_dns_poller\<close> to 1 exactly
  when that function does not return 1 and the resolver URL begins with \<^verbatim>\<open>https://\<close>
  and has a host component that is not empty, is shorter than 254 bytes and ends in a
  letter; the poller is then started for that host component. In every other case no
  poller is started and the flag stays 0.
\<close>

theorem poller_activation_policy:
  assumes "length hostname = 255"
  shows "proxy_supports_name_resolution curl_proxy =
           (if (case curl_proxy of None \<Rightarrow> False
                | Some p \<Rightarrow> begins_ci p ''http:'' \<or> begins_ci p ''https:'' \<or>
                            begins_ci p ''socks4a:'' \<or> begins_ci p ''socks5h:'')
            then 1 else 0)
       \<and> main_dns_poller curl_proxy hostname (app_init client url) =
           (if proxy_supports_name_resolution curl_proxy \<noteq> 1 \<and>
               take 8 (c_str url) = ''https://'' \<and> host_component url \<noteq> [] \<and>
               length (host_component url) < 254 \<and> isalpha (last (host_component url))
            then Inr ((app_init client url)\<lparr>using_dns_poller := 1\<rparr>, Some (host_component url))
            else Inr (app_init client url, None))"
proof -
  have a: "proxy_supports_name_resolution curl_proxy =
           (if (case curl_proxy of None \<Rightarrow> False
                | Some p \<Rightarrow> begins_ci p ''http:'' \<or> begins_ci p ''https:'' \<or>
                            begins_ci p ''socks4a:'' \<or> begins_ci p ''socks5h:'')
            then 1 else 0)"
    by (cases curl_proxy) (simp_all add: proxy_supports_iff)
  have u: "resolver_url (app_init client url) = url"
    by (simp add: app_init_def)
  have b: "proxy_supports_name_resolution curl_proxy \<noteq> 1 \<longleftrightarrow>
             proxy_supports_name_resolution curl_proxy = 0"
    unfolding a by simp
  show ?thesis
    using a main_dns_poller_eq [OF assms, of curl_proxy "app_init client url"]
    unfolding u b by blast
qed

theorem poller_activation_policy_witness:
  "length (replicate 255 NUL) = 255
   \<and> proxy_supports_name_resolution (Some ''SOCKS5h://127.0.0.1:1080'') = 1
   \<and> proxy_supports_name_resolution (Some ''socks5://127.0.0.1:1080'') = 0
   \<and> main_dns_poller (Some ''socks5://127.0.0.1:1080'') (replicate 255 NUL)
        (app_init 1 ''https://dns.google/resolve'') =
      Inr ((app_init 1 ''https://dns.google/resolve'')\<lparr>using_dns_poller := 1\<rparr>, Some ''dns.google'')
   \<and> main_dns_poller (Some ''SOCKS5h://127.0.0.1:1080'') (replicate 255 NUL)
        (app_init 1 ''https://dns.google/resolve'') =
      Inr (app_init 1 ''https://dns.google/resolve'', None)"
proof -
  have l: "length (replicate 255 NUL) = 255" by simp
  have h: "host_component ''https://dns.google/resolve'' = ''dns.google''"
    by (simp add: host_component_def NUL_def)
  have c: "take 8 (c_str ''https://dns.google/resolve'') = ''https://''"
    by (simp add: c_str_def NUL_def)
  have al: "isalpha (last ''dns.google'')"
    by (simp add: isalpha_def isupper_def islower_def)
  have p1: "begins_ci ''SOCKS5h://127.0.0.1:1080'' ''socks5h:''"
    by (simp add: begins_ci_def strlen_def c_str_def NUL_def same_letter_def isupper_def)
  have p2: "\<not> begins_ci ''socks5://127.0.0.1:1080'' ''http:''"
     "\<not> begins_ci ''socks5://127.0.0.1:1080'' ''https:''"
     "\<not> begins_ci ''socks5://127.0.0.1:1080'' ''socks4a:''"
     "\<not> begins_ci ''socks5://127.0.0.1:1080'' ''socks5h:''"
    by (simp_all add: begins_ci_def strlen_def c_str_def NUL_def same_letter_def isupper_def)
  show ?thesis
    using poller_activation_policy [OF l, of "Some ''SOCKS5h://127.0.0.1:1080''" 1 "''https://dns.google/resolve''"]
      poller_activation_policy [OF l, of "Some ''socks5://127.0.0.1:1080''" 1 "''https://dns.google/resolve''"]
      p1 p2
    unfolding h c using al by simp
qed

section \<open>The last byte of the host component\<close>

lemma host1_example_accept:
  assumes "length hostname = 255"
  shows "hostname_from_uri ''https://host1.example/resolve'' hostname 254 =
           Inr (1, ''host1.example'' @ NUL # drop 14 hostname)"
proof -
  let ?U = "''https://host1.example/resolve''"
  have h: "host_component ?U = ''host1.example''"
    by (simp add: host_component_def NUL_def)
  have n: "Suc (length (host_component ?U)) = 14"
    unfolding h by simp
  have "hostname_from_uri ?U hostname 254 =
          Inr (1, host_component ?U @ NUL # drop (Suc (length (host_component ?U))) hostname)"
    by (rule hostname_from_uri_accept)
       (simp_all add: h assms c_str_def NUL_def isalpha_def isupper_def islower_def)
  then show ?thesis unfolding n unfolding h .
qed

text \<open>
  Against claim C6 as it is worded: the host name \<^verbatim>\<open>host1.example\<close>, which the claim
  gives as one that ends in a digit and is refused, ends in the letter \<^verbatim>\<open>e\<close>.
  \<^verbatim>\<open>hostname_from_uri\<close> returns 1 on it and main starts the poller.
\<close>

theorem host1_example_is_accepted:
  "hostname_from_uri ''https://host1.example/resolve'' (replicate 255 NUL) 254 =
     Inr (1, ''host1.example'' @ replicate 242 NUL)
   \<and> main_dns_poller None (replicate 255 NUL) (app_init 1 ''https://host1.example/resolve'') =
     Inr ((app_init 1 ''https://host1.example/resolve'')\<lparr>using_dns_poller := 1\<rparr>,
          Some ''host1.example'')"
proof -
  have l: "length (replicate 255 NUL) = 255" by simp
  have r: "NUL # replicate 241 NUL = replicate 242 NUL"
    by (simp add: replicate_Suc [symmetric] del: replicate_Suc)
  have a: "hostname_from_uri ''https://host1.example/resolve'' (replicate 255 NUL) 254 =
            Inr (1, ''host1.example'' @ replicate 242 NUL)"
    using host1_example_accept [OF l] r by simp
  have c: "c_str (''host1.example'' @ replicate 242 NUL) = ''host1.example''"
    by (simp add: c_str_def NUL_def)
  have p: "proxy_supports_name_resolution None = 0"
    by (simp add: proxy_supports_name_resolution_def)
  show ?thesis
    using a c p by (simp add: main_dns_poller_def app_init_def)
qed

text \<open>
  Claim C6, amended. For every URL that begins with \<^verbatim>\<open>https://\<close> and whose host
  component is not empty and ends in a byte that is not a letter, \<^verbatim>\<open>hostname_from_uri\<close>
  returns 0 and leaves the array alone, and main starts no poller; this includes a genuine
  host name that ends in a digit, such as \<^verbatim>\<open>example.host1\<close>. Whenever the function
  returns a non-zero value, the host component is not empty and the byte before the path
  separator (or the end of the string) is a letter.
\<close>

theorem hostname_from_uri_alpha_heuristic:
  "(take 8 (c_str uri) = ''https://'' \<and> host_component uri \<noteq> [] \<and>
      \<not> isalpha (last (host_component uri)) \<longrightarrow>
        hostname_from_uri uri hostname hostname_len = Inr (0, hostname))
   \<and> (length hostname = 255 \<and> take 8 (c_str (resolver_url a)) = ''https://'' \<and>
      host_component (resolver_url a) \<noteq> [] \<and> \<not> isalpha (last (host_component (resolver_url a))) \<longrightarrow>
        main_dns_poller curl_proxy hostname a = Inr (a, None))
   \<and> (\<forall>r h. hostname_from_uri uri hostname hostname_len = Inr (r, h) \<and> r \<noteq> 0 \<longrightarrow>
        host_component uri \<noteq> [] \<and> isalpha (last (host_component uri)))
   \<and> hostname_from_uri ''https://example.host1/resolve'' hostname hostname_len = Inr (0, hostname)"
proof -
  have a: "take 8 (c_str uri) = ''https://'' \<and> host_component uri \<noteq> [] \<and>
      \<not> isalpha (last (host_component uri)) \<longrightarrow>
        hostname_from_uri uri hostname hostname_len = Inr (0, hostname)"
    by (auto intro: hostname_from_uri_reject)
  have b: "length hostname = 255 \<and> take 8 (c_str (resolver_url a)) = ''https://'' \<and>
      host_component (resolver_url a) \<noteq> [] \<and> \<not> isalpha (last (host_component (resolver_url a))) \<longrightarrow>
        main_dns_poller curl_proxy hostname a = Inr (a, None)"
    by (auto simp: main_dns_poller_eq)
  have c: "\<forall>r h. hostname_from_uri uri hostname hostname_len = Inr (r, h) \<and> r \<noteq> 0 \<longrightarrow>
        host_component uri \<noteq> [] \<and> isalpha (last (host_component uri))"
  proof (intro allI impI, elim conjE)
    fix r h
    assume ok: "hostname_from_uri uri hostname hostname_len = Inr (r, h)" and nz: "r \<noteq> 0"
    let ?good = "take 8 (c_str uri) = ''https://'' \<and> host_component uri \<noteq> [] \<and>
             int (length (host_component uri)) < hostname_len \<and> isalpha (last (host_component uri))"
    have ?good
    proof (rule ccontr)
      assume "\<not> ?good"
      then have "hostname_from_uri uri hostname hostname_len = Inr (0, hostname)"
        by (rule hostname_from_uri_reject)
      with ok nz show False by simp
    qed
    then show "host_component uri \<noteq> [] \<and> isalpha (last (host_component uri))" by simp
  qed
  have h: "host_component ''https://example.host1/resolve'' = ''example.host1''"
    by (simp add: host_component_def NUL_def)
  have d: "hostname_from_uri ''https://example.host1/resolve'' hostname hostname_len = Inr (0, hostname)"
    by (rule hostname_from_uri_reject) (simp add: h isalpha_def isupper_def islower_def)
  from a b c d show ?thesis by blast
qed

theorem hostname_from_uri_alpha_heuristic_witness:
  "take 8 (c_str ''https://192.0.2.7/dns-query'') = ''https://''
   \<and> host_component ''https://192.0.2.7/dns-query'' = ''192.0.2.7''
   \<and> \<not> isalpha (last ''192.0.2.7'')
   \<and> hostname_from_uri ''https://192.0.2.7/dns-query'' (replicate 255 NUL) 254 =
        Inr (0, replicate 255 NUL)
   \<and> main_dns_poller None (replicate 255 NUL) (app_init 1 ''https://192.0.2.7/dns-query'') =
        Inr (app_init 1 ''https://192.0.2.7/dns-query'', None)
   \<and> hostname_from_uri ''https://dns.google/resolve'' (replicate 255 NUL) 254 =
        Inr (1, ''dns.google'' @ replicate 245 NUL)
   \<and> isalpha (last (host_component ''https://dns.google/resolve''))"
proof -
  let ?U = "''https://192.0.2.7/dns-query''"
  let ?G = "''https://dns.google/resolve''"
  have t: "take 8 (c_str ?U) = ''https://''" by (simp add: c_str_def NUL_def)
  have h: "host_component ?U = ''192.0.2.7''" by (simp add: host_component_def NUL_def)
  have n: "\<not> isalpha (last ''192.0.2.7'')" by (simp add: isalpha_def isupper_def islower_def)
  have u: "resolver_url (app_init 1 ?U) = ?U" by (simp add: app_init_def)
  have l: "length (replicate 255 NUL) = 255" by simp
  have r: "NUL # replicate 244 NUL = replicate 245 NUL"
    by (simp add: replicate_Suc [symmetric] del: replicate_Suc)
  have g: "hostname_from_uri ?G (replicate 255 NUL) 254 = Inr (1, ''dns.google'' @ replicate 245 NUL)"
    using dns_google_accept [OF l] r by simp
  note w1 = hostname_from_uri_alpha_heuristic [of ?U "replicate 255 NUL" 254 "app_init 1 ?U" None]
  note w2 = hostname_from_uri_alpha_heuristic [of ?G "replicate 255 NUL" 254 "app_init 1 ?U" None]
  have 1: "hostname_from_uri ?U (replicate 255 NUL) 254 = Inr (0, replicate 255 NUL)"
    using w1 t h n by simp
  have 2: "main_dns_poller None (replicate 255 NUL) (app_init 1 ?U) = Inr (app_init 1 ?U, None)"
    using w1 t h n u l by simp
  have 3: "isalpha (last (host_component ?G))"
    using w2 g by simp
  from t h n 1 2 g 3 show ?thesis by blast
qed

section \<open>What dns_poll_cb computes\<close>

lemma c_str_replicate_NUL: "c_str (replicate n NUL) = []"
  by (simp add: c_str_def takeWhile_replicate)

lemma c_str_append_NUL: "c_str (a @ NUL # r) = c_str a"
  by (induction a) (auto simp: c_str_Cons c_str_Nil)

lemma c_str_idem: "c_str (c_str m) = c_str m"
  by (induction m) (auto simp: c_str_Cons c_str_Nil)

lemma port_no_NUL: "NUL \<notin> set '':443:''"
  by (simp add: NUL_def)

lemma snprintf_host:
  assumes "length h \<le> 254"
  shows "snprintf (replicate 280 NUL) (280 - 1) (h @ '':443:'') =
           Inr (h @ '':443:'' @ replicate (275 - length h) NUL)"
proof -
  let ?s = "h @ '':443:''"
  have t: "take (280 - 1 - 1) ?s = ?s" using assms by simp
  have d: "[NUL] @ drop (0 + length (?s @ [NUL])) (replicate 280 NUL) = replicate (275 - length h) NUL"
  proof -
    have "drop (length (?s @ [NUL])) (replicate 280 NUL) = replicate (274 - length h) NUL"
      by simp
    moreover have "NUL # replicate (274 - length h) NUL = replicate (Suc (274 - length h)) NUL"
      by simp
    moreover have "Suc (274 - length h) = 275 - length h" using assms by simp
    ultimately show ?thesis by simp
  qed
  have "snprintf (replicate 280 NUL) (280 - 1) ?s = write_at (replicate 280 NUL) 0 (?s @ [NUL])"
    unfolding snprintf_def t by simp
  also have "\<dots> = Inr (?s @ [NUL] @ drop (0 + length (?s @ [NUL])) (replicate 280 NUL))"
    using assms by (simp add: write_at_def)
  finally show ?thesis unfolding d by simp
qed

lemma strlen_host_buf:
  assumes "NUL \<notin> set h"
  shows "strlen (h @ '':443:'' @ replicate n NUL) = length h + 5"
    and "c_str (h @ '':443:'' @ replicate n NUL) = h @ '':443:''"
proof -
  have "c_str ((h @ '':443:'') @ replicate n NUL) = (h @ '':443:'') @ c_str (replicate n NUL)"
    by (rule c_str_append) (insert assms port_no_NUL, simp)
  then show "c_str (h @ '':443:'' @ replicate n NUL) = h @ '':443:''"
    by (simp add: c_str_replicate_NUL)
  then show "strlen (h @ '':443:'' @ replicate n NUL) = length h + 5"
    by (simp add: strlen_def)
qed

lemma ares_inet_ntop_host:
  assumes "length h \<le> 254" and "NUL \<notin> set h"
  shows "\<exists>buf2. ares_inet_ntop ip (h @ '':443:'' @ replicate (275 - length h) NUL) (length h + 5)
            (280 - 1 - (length h + 5)) = Inr buf2
          \<and> c_str buf2 = h @ '':443:'' @ (if length ip < 274 - length h then c_str ip else [])"
proof (cases "length ip < 274 - length h")
  case True
  let ?b = "h @ '':443:'' @ replicate (275 - length h) NUL"
  have len: "length ?b = 280" using assms(1) by simp
  have tk: "take (length h + 5) ?b = h @ '':443:''" by simp
  have "ares_inet_ntop ip ?b (length h + 5) (280 - 1 - (length h + 5)) =
          Inr (take (length h + 5) ?b @ (ip @ [NUL]) @
               drop (length h + 5 + length (ip @ [NUL])) ?b)"
    using True len unfolding ares_inet_ntop_def write_at_def by simp
  moreover have "c_str (take (length h + 5) ?b @ (ip @ [NUL]) @
               drop (length h + 5 + length (ip @ [NUL])) ?b) = h @ '':443:'' @ c_str ip"
  proof -
    have "c_str ((h @ '':443:'') @ (ip @ NUL # drop (length h + 5 + length (ip @ [NUL])) ?b)) =
            (h @ '':443:'') @ c_str (ip @ NUL # drop (length h + 5 + length (ip @ [NUL])) ?b)"
      by (rule c_str_append) (insert assms port_no_NUL, simp)
    then show ?thesis unfolding tk by (simp add: c_str_append_NUL)
  qed
  ultimately show ?thesis using True by simp
next
  case False
  then show ?thesis
    using strlen_host_buf(2) [OF assms(2)] by (simp add: ares_inet_ntop_def)
qed

lemma dns_poll_cb_eq:
  assumes "strlen hostname \<le> 254"
  shows "dns_poll_cb hostname ip w =
           Inr (w\<lparr>app := (app w)\<lparr>resolv :=
                    [Some (c_str hostname @ '':443:'' @
                           (if length ip < 274 - strlen hostname then c_str ip else []))]\<rparr>,
                  trace := trace w @ [Curl_slist_free_all (resolv (app w))]\<rparr>)"
proof -
  let ?h = "c_str hostname"
  have l: "length ?h \<le> 254" using assms by (simp add: strlen_def)
  have n: "NUL \<notin> set ?h" by (rule c_str_no_NUL)
  obtain buf2 where
    b2: "ares_inet_ntop ip (?h @ '':443:'' @ replicate (275 - length ?h) NUL) (length ?h + 5)
            (280 - 1 - (length ?h + 5)) = Inr buf2"
    and c2: "c_str buf2 = ?h @ '':443:'' @ (if length ip < 274 - length ?h then c_str ip else [])"
    using ares_inet_ntop_host [OF l n] by blast
  have cc: "c_str (c_str buf2) = c_str buf2" by (rule c_str_idem)
  show ?thesis
    using assms snprintf_host [OF l] strlen_host_buf(1) [OF n] b2 c2
    by (simp add: dns_poll_cb_def Let_def curl_slist_free_all_def curl_slist_append_def emit_def
        strlen_def)
qed

section \<open>The override slot over a run of the reactor\<close>

lemma dns_server_cb_resolv:
  "dns_server_cb srv addr tx b n p w = Inr w' \<Longrightarrow> app w' = app w"
  by (auto simp: dns_server_cb_def free_def emit_def calloc_request_t_def FLOG_def Let_def
      split: if_splits option.splits sum.splits)

lemma free_app: "free p w = Inr w' \<Longrightarrow> app w' = app w"
  by (auto simp: free_def emit_def split: if_splits option.splits)

lemma https_resp_cb_resolv:
  "https_resp_cb d buf n w = Inr w' \<Longrightarrow> app w' = app w"
  by (auto simp: https_resp_cb_def emit_def FLOG_def Let_def dest!: free_app
      split: if_splits option.splits sum.splits obj.splits)

lemma dns_poll_cb_length:
  "dns_poll_cb hostname ip w = Inr w' \<Longrightarrow> length (resolv (app w')) = 1"
  by (auto simp: dns_poll_cb_def Let_def curl_slist_append_def FLOG_def
      split: if_splits sum.splits)

lemma dispatch_resolv_le1:
  "dispatch i w = Inr w' \<Longrightarrow> length (resolv (app w)) \<le> 1 \<Longrightarrow> length (resolv (app w')) \<le> 1"
  by (cases i) (auto dest: dns_server_cb_resolv https_resp_cb_resolv dns_poll_cb_length)

lemma ev_run_resolv_le1:
  "ev_run ins w = Inr w' \<Longrightarrow> length (resolv (app w)) \<le> 1 \<Longrightarrow> length (resolv (app w')) \<le> 1"
proof (induction ins arbitrary: w)
  case Nil
  then show ?case by simp
next
  case (Cons i ins)
  then show ?case
    by (auto split: sum.splits dest: dispatch_resolv_le1)
qed

section \<open>The poll callback replaces the override\<close>

text \<open>
  What \<^verbatim>\<open>dns_poll_cb\<close> does in every case. Called with a host name of at most 254
  bytes, it returns; it hands the whole previous list to \<^verbatim>\<open>curl_slist_free_all\<close> and
  puts into the slot a list built from NULL, with exactly one entry. Whenever the text of
  the resolved address is shorter than 274 bytes less the length of the host name (so for
  every IPv4 address, whose text has at most 15 bytes), that entry is the host name,
  \<^verbatim>\<open>:443:\<close> and the address. The new list does not depend on what the slot held
  before, and nothing else of the state changes. Over any run of the reactor that starts
  with at most one entry in the slot, the slot holds at most one entry.
\<close>

theorem dns_poll_cb_replaces_override:
  assumes "strlen hostname \<le> 254"
  shows "\<exists>w'. dns_poll_cb hostname ip w = Inr w'
          \<and> trace w' = trace w @ [Curl_slist_free_all (resolv (app w))]
          \<and> length (resolv (app w')) = 1
          \<and> (length ip < 274 - strlen hostname \<longrightarrow>
                resolv (app w') = [Some (c_str hostname @ '':443:'' @ c_str ip)])
          \<and> (\<forall>v. \<exists>v'. dns_poll_cb hostname ip v = Inr v' \<and> resolv (app v') = resolv (app w'))
          \<and> heap w' = heap w \<and> servers w' = servers w
          \<and> app w' = (app w)\<lparr>resolv := resolv (app w')\<rparr>
          \<and> (length (resolv (app wa)) \<le> 1 \<and> ev_run ins wa = Inr wb \<longrightarrow>
                length (resolv (app wb)) \<le> 1)"
proof -
  have inv: "length (resolv (app wa)) \<le> 1 \<and> ev_run ins wa = Inr wb \<longrightarrow>
                length (resolv (app wb)) \<le> 1"
    using ev_run_resolv_le1 by blast
  show ?thesis
    unfolding dns_poll_cb_eq [OF assms] using inv by simp
qed

theorem dns_poll_cb_replaces_override_witness:
  "strlen ''dns.google'' \<le> 254 \<and> length ''8.8.8.8'' < 274 - strlen ''dns.google''
   \<and> dns_poll_cb ''dns.google'' ''8.8.8.8''
        (start_world ((app_init 1 ''https://dns.google/resolve'')
           \<lparr>using_dns_poller := 1, resolv := [Some ''dns.google:443:8.8.4.4'']\<rparr>) 2 \<lparr>addrlen = 16\<rparr>) =
      Inr ((start_world ((app_init 1 ''https://dns.google/resolve'')
           \<lparr>using_dns_poller := 1, resolv := [Some ''dns.google:443:8.8.8.8'']\<rparr>) 2 \<lparr>addrlen = 16\<rparr>)
           \<lparr>trace := [Curl_slist_free_all [Some ''dns.google:443:8.8.4.4'']]\<rparr>)
   \<and> length (resolv (app (start_world (app_init 1 ''https://dns.google/resolve'') 2 \<lparr>addrlen = 16\<rparr>))) \<le> 1
   \<and> ev_run [Dns_resolved ''dns.google'' ''8.8.8.8'', Dns_resolved ''dns.google'' ''8.8.4.4'']
        (start_world (app_init 1 ''https://dns.google/resolve'') 2 \<lparr>addrlen = 16\<rparr>) =
      Inr ((start_world ((app_init 1 ''https://dns.google/resolve'')
             \<lparr>resolv := [Some ''dns.google:443:8.8.4.4'']\<rparr>) 2 \<lparr>addrlen = 16\<rparr>)
           \<lparr>trace := [Curl_slist_free_all [], Curl_slist_free_all [Some ''dns.google:443:8.8.8.8'']]\<rparr>)
   \<and> length (resolv (app ((start_world ((app_init 1 ''https://dns.google/resolve'')
             \<lparr>resolv := [Some ''dns.google:443:8.8.4.4'']\<rparr>) 2 \<lparr>addrlen = 16\<rparr>)
           \<lparr>trace := [Curl_slist_free_all [], Curl_slist_free_all [Some ''dns.google:443:8.8.8.8'']]\<rparr>))) \<le> 1"
proof -
  let ?a = "app_init 1 ''https://dns.google/resolve''"
  let ?W = "start_world (?a\<lparr>using_dns_poller := 1, resolv := [Some ''dns.google:443:8.8.4.4'']\<rparr>) 2 \<lparr>addrlen = 16\<rparr>"
  let ?Wa = "start_world ?a 2 \<lparr>addrlen = 16\<rparr>"
  let ?Wb = "(start_world (?a\<lparr>resolv := [Some ''dns.google:443:8.8.4.4'']\<rparr>) 2 \<lparr>addrlen = 16\<rparr>)
           \<lparr>trace := [Curl_slist_free_all [], Curl_slist_free_all [Some ''dns.google:443:8.8.8.8'']]\<rparr>"
  let ?ins = "[Dns_resolved ''dns.google'' ''8.8.8.8'', Dns_resolved ''dns.google'' ''8.8.4.4'']"
  have c: "c_str ''dns.google'' = ''dns.google''" "c_str ''8.8.8.8'' = ''8.8.8.8''"
    "c_str ''8.8.4.4'' = ''8.8.4.4''"
    by (simp_all add: c_str_def NUL_def)
  have s: "strlen ''dns.google'' \<le> 254" and f: "length ''8.8.8.8'' < 274 - strlen ''dns.google''"
    by (simp_all add: strlen_def c)
  note t = dns_poll_cb_replaces_override [OF s, where ip = "''8.8.8.8''" and w = ?W and wa = ?Wa
      and ins = ?ins and wb = ?Wb]
  from t obtain w' where w': "dns_poll_cb ''dns.google'' ''8.8.8.8'' ?W = Inr w'"
      "trace w' = trace ?W @ [Curl_slist_free_all (resolv (app ?W))]"
      "length ip < 274 - strlen ''dns.google'' \<longrightarrow> True"
      "resolv (app w') = [Some (c_str ''dns.google'' @ '':443:'' @ c_str ''8.8.8.8'')]"
      "heap w' = heap ?W" "servers w' = servers ?W" "app w' = (app ?W)\<lparr>resolv := resolv (app w')\<rparr>"
    using f by auto
  have 1: "dns_poll_cb ''dns.google'' ''8.8.8.8'' ?W =
      Inr ((start_world (?a\<lparr>using_dns_poller := 1, resolv := [Some ''dns.google:443:8.8.8.8'']\<rparr>) 2 \<lparr>addrlen = 16\<rparr>)
           \<lparr>trace := [Curl_slist_free_all [Some ''dns.google:443:8.8.4.4'']]\<rparr>)"
    unfolding w'(1) using w'(2,4,5,6,7) by (simp add: start_world_def c)
  have r: "ev_run ?ins ?Wa = Inr ?Wb"
    by (simp add: dns_poll_cb_eq strlen_def c start_world_def app_init_def)
  have 2: "length (resolv (app ?Wa)) \<le> 1" by (simp add: start_world_def app_init_def)
  have 3: "length (resolv (app ?Wb)) \<le> 1" using t 2 r by blast
  from s f 1 2 r 3 show ?thesis by blast
qed

lemma long_hostname_facts:
  "NUL \<notin> set long_hostname" "length long_hostname = 245" "CHR ''/'' \<notin> set long_hostname"
  "long_hostname \<noteq> []" "last long_hostname = CHR ''e''"
  by (simp_all add: long_hostname_def NUL_def)

lemma c_str_long_hostname: "c_str long_hostname = long_hostname"
  using c_str_append [OF long_hostname_facts(1), of "[]"] by (simp add: c_str_Nil)

lemma long_hostname_url:
  "take 8 (c_str (''https://'' @ long_hostname @ ''/dns-query'')) = ''https://''"
  "host_component (''https://'' @ long_hostname @ ''/dns-query'') = long_hostname"
proof -
  have "c_str (''https://'' @ long_hostname @ ''/dns-query'') =
        ''https://'' @ c_str (long_hostname @ ''/dns-query'')"
    by (rule c_str_append) (simp add: NUL_def)
  then show "take 8 (c_str (''https://'' @ long_hostname @ ''/dns-query'')) = ''https://''"
    by simp
  have "takeWhile (\<lambda>c. c \<noteq> NUL \<and> c \<noteq> CHR ''/'') (long_hostname @ ''/dns-query'') =
        long_hostname @ takeWhile (\<lambda>c. c \<noteq> NUL \<and> c \<noteq> CHR ''/'') ''/dns-query''"
    by (rule takeWhile_append2) (use long_hostname_facts in auto)
  then show "host_component (''https://'' @ long_hostname @ ''/dns-query'') = long_hostname"
    by (simp add: host_component_def)
qed

text \<open>
  Claim C8 has every successful poll resolution leave one entry of the form
  \<^verbatim>\<open>hostname:443:resolved-address\<close> in the list. At this input the code does not. main
  accepts the resolver URL with the 245-byte host name and starts the poller for it. When
  the poller then reports an address whose text has 36 bytes, 28 bytes are left of the
  280-byte buffer, \<^verbatim>\<open>ares_inet_ntop\<close> stores nothing, its result is not looked at, and
  the one entry of the new list is the host name and \<^verbatim>\<open>:443:\<close> with no address behind
  it. The buffer has room for the longest host name with an IPv4 address (254 + 5 + 16
  bytes), not with an IPv6 address.
\<close>

theorem long_hostname_entry_lacks_address:
  "main_dns_poller None (replicate 255 NUL) (app_init 1 (''https://'' @ long_hostname @ ''/dns-query'')) =
     Inr ((app_init 1 (''https://'' @ long_hostname @ ''/dns-query''))\<lparr>using_dns_poller := 1\<rparr>,
          Some long_hostname)
   \<and> dns_poll_cb long_hostname long_ip
       (start_world ((app_init 1 (''https://'' @ long_hostname @ ''/dns-query''))\<lparr>using_dns_poller := 1\<rparr>)
          2 \<lparr>addrlen = 28\<rparr>) =
     Inr ((start_world ((app_init 1 (''https://'' @ long_hostname @ ''/dns-query''))
             \<lparr>using_dns_poller := 1, resolv := [Some (long_hostname @ '':443:'')]\<rparr>)
          2 \<lparr>addrlen = 28\<rparr>)\<lparr>trace := [Curl_slist_free_all []]\<rparr>)"
proof -
  let ?U = "''https://'' @ long_hostname @ ''/dns-query''"
  have p: "proxy_supports_name_resolution None = 0"
    by (simp add: proxy_supports_name_resolution_def)
  have al: "isalpha (CHR ''e'')" by (simp add: isalpha_def isupper_def islower_def)
  have u: "resolver_url (app_init 1 ?U) = ?U" by (simp add: app_init_def)
  have 1: "main_dns_poller None (replicate 255 NUL) (app_init 1 ?U) =
     Inr ((app_init 1 ?U)\<lparr>using_dns_poller := 1\<rparr>, Some long_hostname)"
    unfolding main_dns_poller_eq [of "replicate 255 NUL", simplified] u long_hostname_url
    using p al long_hostname_facts by simp
  have s: "strlen long_hostname \<le> 254" "strlen long_hostname = 245"
    by (simp_all add: strlen_def c_str_long_hostname long_hostname_facts)
  have 2: "dns_poll_cb long_hostname long_ip
       (start_world ((app_init 1 ?U)\<lparr>using_dns_poller := 1\<rparr>) 2 \<lparr>addrlen = 28\<rparr>) =
     Inr ((start_world ((app_init 1 ?U)
             \<lparr>using_dns_poller := 1, resolv := [Some (long_hostname @ '':443:'')]\<rparr>)
          2 \<lparr>addrlen = 28\<rparr>)\<lparr>trace := [Curl_slist_free_all []]\<rparr>)"
    unfolding dns_poll_cb_eq [OF s(1)] s(2) c_str_long_hostname
    by (simp add: long_ip_def start_world_def app_init_def)
  from 1 2 show ?thesis by blast
qed

section \<open>The host name fits its array\<close>

lemma hostname_from_uri_cases:
  assumes "length hostname = 255"
  shows "hostname_from_uri uri hostname 254 = Inr (0, hostname)
       \<or> (length (host_component uri) \<le> 253 \<and>
          hostname_from_uri uri hostname 254 =
            Inr (1, host_component uri @ NUL # drop (Suc (length (host_component uri))) hostname))"
proof (cases "take 8 (c_str uri) = ''https://'' \<and> host_component uri \<noteq> [] \<and>
              int (length (host_component uri)) < 254 \<and> isalpha (last (host_component uri))")
  case True
  then have "hostname_from_uri uri hostname 254 =
      Inr (1, host_component uri @ NUL # drop (Suc (length (host_component uri))) hostname)"
    using assms by (intro hostname_from_uri_accept) simp_all
  with True show ?thesis by simp
next
  case False
  then have "hostname_from_uri uri hostname 254 = Inr (0, hostname)"
    by (rule hostname_from_uri_reject)
  then show ?thesis by simp
qed

lemma dns_poll_cb_short:
  assumes "strlen h \<le> 254"
  shows "\<exists>w'. dns_poll_cb h ip w = Inr w'" and "dns_poll_cb h ip w \<noteq> FLOG ''Hostname too long.''"
  unfolding dns_poll_cb_eq [OF assms] by (simp_all add: FLOG_def)

text \<open>
  Claim C10. With the 255-byte array of main and \<^verbatim>\<open>hostname_len = 254\<close>,
  \<^verbatim>\<open>hostname_from_uri\<close> returns for every URI without a write outside the array.
  When it returns a non-zero value, the array holds the host component as a string of at
  most 253 bytes with its terminating NUL inside the array; main hands that string to the
  poller; and \<^verbatim>\<open>dns_poll_cb\<close> called with it returns, so it does not take the
  \<^verbatim>\<open>Hostname too long.\<close> branch.
\<close>

theorem hostname_within_buffer:
  assumes "length hostname = 255"
  shows "\<exists>r h. hostname_from_uri uri hostname 254 = Inr (r, h) \<and> length h = 255
          \<and> (r \<noteq> 0 \<longrightarrow>
                strlen h \<le> 253 \<and> h ! strlen h = NUL \<and> c_str h = host_component uri
              \<and> (\<exists>w'. dns_poll_cb h ip w = Inr w')
              \<and> dns_poll_cb h ip w \<noteq> FLOG ''Hostname too long.''
              \<and> (\<forall>a. resolver_url a = uri \<and> proxy_supports_name_resolution curl_proxy = 0 \<longrightarrow>
                    main_dns_poller curl_proxy hostname a =
                      Inr (a\<lparr>using_dns_poller := 1\<rparr>, Some (c_str h))))"
proof -
  let ?h = "host_component uri"
  let ?b = "?h @ NUL # drop (Suc (length ?h)) hostname"
  from hostname_from_uri_cases [OF assms, of uri]
  show ?thesis
  proof
    assume "hostname_from_uri uri hostname 254 = Inr (0, hostname)"
    then show ?thesis using assms by simp
  next
    assume ok: "length ?h \<le> 253 \<and> hostname_from_uri uri hostname 254 = Inr (1, ?b)"
    have c: "c_str ?b = ?h" by (rule c_str_host_buf)
    have sl: "strlen ?b = length ?h" by (simp add: strlen_def c)
    have len: "length ?b = 255" using ok assms by simp
    have nul: "?b ! strlen ?b = NUL" unfolding sl by simp
    have s: "strlen ?b \<le> 254" using ok sl by simp
    have m: "\<forall>a. resolver_url a = uri \<and> proxy_supports_name_resolution curl_proxy = 0 \<longrightarrow>
                    main_dns_poller curl_proxy hostname a =
                      Inr (a\<lparr>using_dns_poller := 1\<rparr>, Some (c_str ?b))"
      using ok by (auto simp: main_dns_poller_def)
    show ?thesis
      using ok c sl len nul m dns_poll_cb_short [OF s, of ip w] by auto
  qed
qed

theorem hostname_within_buffer_witness:
  "length (replicate 255 CHR ''x'') = 255
   \<and> hostname_from_uri ''https://dns.google/resolve'' (replicate 255 CHR ''x'') 254 =
        Inr (1, ''dns.google'' @ NUL # replicate 244 CHR ''x'')
   \<and> strlen (''dns.google'' @ NUL # replicate 244 CHR ''x'') \<le> 253
   \<and> (''dns.google'' @ NUL # replicate 244 CHR ''x'') ! 10 = NUL
   \<and> (\<exists>w'. dns_poll_cb (''dns.google'' @ NUL # replicate 244 CHR ''x'') ''8.8.8.8''
            (start_world (app_init 1 ''https://dns.google/resolve'') 2 \<lparr>addrlen = 16\<rparr>) = Inr w')"
proof -
  have l: "length (replicate 255 CHR ''x'') = 255" by simp
  have g: "hostname_from_uri ''https://dns.google/resolve'' (replicate 255 CHR ''x'') 254 =
        Inr (1, ''dns.google'' @ NUL # replicate 244 CHR ''x'')"
    using dns_google_accept [OF l] by simp
  have n: "(''dns.google'' @ NUL # replicate 244 CHR ''x'') ! 10 = NUL" by simp
  from hostname_within_buffer [OF l, of "''https://dns.google/resolve''" "''8.8.8.8''"
      "start_world (app_init 1 ''https://dns.google/resolve'') 2 \<lparr>addrlen = 16\<rparr>" None]
  have "strlen (''dns.google'' @ NUL # replicate 244 CHR ''x'') \<le> 253
      \<and> (\<exists>w'. dns_poll_cb (''dns.google'' @ NUL # replicate 244 CHR ''x'') ''8.8.8.8''
            (start_world (app_init 1 ''https://dns.google/resolve'') 2 \<lparr>addrlen = 16\<rparr>) = Inr w')"
    unfolding g by simp
  with l g n show ?thesis by blast
qed

section \<open>What one call of dns_server_cb and of https_resp_cb does\<close>

lemma free_live:
  assumes "p \<noteq> NULL" and "heap w p = Some ob"
  shows "free p w = Inr (w\<lparr>heap := (heap w)(p := None), trace := trace w @ [Free p]\<rparr>)"
  using assms by (simp add: free_def emit_def)

lemma dns_server_cb_gated:
  assumes "not_bootstrapped (app w)" and "b \<noteq> NULL" and "heap w b = Some ob"
  shows "dns_server_cb srv addr tx b n p w =
           Inr (w\<lparr>heap := (heap w)(b := None),
                  trace := trace w @
                    [WLOG ''Query received before bootstrapping is completed, discarding.'', Free b]\<rparr>)"
  using assms by (simp add: dns_server_cb_def free_def emit_def)

lemma dns_server_cb_open:
  assumes "\<not> not_bootstrapped (app w)" and "p \<noteq> NULL" and "servers w srv = Some s"
    and "addrlen s \<le> length addr" and "addrlen s \<le> sizeof_sockaddr_storage"
  shows "dns_server_cb srv addr tx b n p w =
           Inr (w\<lparr>heap := (heap w)(p \<mapsto> Req \<lparr>tx_id = tx,
                      raddr = take (addrlen s) addr @ replicate (sizeof_sockaddr_storage - addrlen s) NUL,
                      dns_server = srv, dns_req = b\<rparr>),
                  trace := trace w @
                    [Https_client_fetch (https_client (app w)) (resolver_url (app w)) b n
                       (resolv (app w)) p]\<rparr>)"
  using assms
  by (simp add: dns_server_cb_def calloc_request_t_def Let_def memcpy_def zero_request_def emit_def)

lemma https_resp_cb_live:
  assumes "d \<noteq> NULL" and "heap w d = Some (Req r)" and "dns_req r \<noteq> NULL"
    and "dns_req r \<noteq> d" and "heap w (dns_req r) = Some ob"
  shows "https_resp_cb d buf n w =
           Inr (w\<lparr>heap := (heap w)(dns_req r := None, d := None),
                  trace := trace w @
                    (case buf of None \<Rightarrow> []
                     | Some b \<Rightarrow> [Dns_server_respond (dns_server r) (raddr r) b n]) @
                    [Free (dns_req r), Free d]\<rparr>)"
  using assms
  by (cases buf) (simp_all add: https_resp_cb_def Let_def free_def emit_def)

section \<open>Out of memory in dns_server_cb\<close>

text \<open>
  Claim C9. When the query passes the gate and \<^verbatim>\<open>calloc\<close> returns NULL,
  \<^verbatim>\<open>dns_server_cb\<close> ends in \<^verbatim>\<open>FLOG("Out of mem")\<close>, the end of the process with
  that message logged; it does not return, so it neither drops the query nor carries on.
\<close>

theorem out_of_memory_is_fatal:
  assumes "\<not> not_bootstrapped (app w)"
  shows "dns_server_cb srv addr tx req_buf req_len NULL w = FLOG ''Out of mem''
       \<and> dns_server_cb srv addr tx req_buf req_len NULL w = Inl (Fatal ''Out of mem'')
       \<and> (\<forall>w'. dns_server_cb srv addr tx req_buf req_len NULL w \<noteq> Inr w')"
  using assms by (simp add: dns_server_cb_def calloc_request_t_def Let_def FLOG_def)

theorem out_of_memory_is_fatal_witness:
  "\<not> not_bootstrapped (app (start_world (app_init 1 ''https://8.8.8.8/resolve'') 2 \<lparr>addrlen = 16\<rparr>))
   \<and> dns_server_cb 2 (replicate 128 NUL) 0x1234 10 12 NULL
        ((start_world (app_init 1 ''https://8.8.8.8/resolve'') 2 \<lparr>addrlen = 16\<rparr>)
           \<lparr>heap := [10 \<mapsto> Buf (replicate 12 NUL)]\<rparr>) = Inl (Fatal ''Out of mem'')"
proof -
  let ?W = "(start_world (app_init 1 ''https://8.8.8.8/resolve'') 2 \<lparr>addrlen = 16\<rparr>)
           \<lparr>heap := [10 \<mapsto> Buf (replicate 12 NUL)]\<rparr>"
  have o: "\<not> not_bootstrapped (app ?W)"
    by (simp add: not_bootstrapped_def start_world_def app_init_def)
  have o': "\<not> not_bootstrapped (app (start_world (app_init 1 ''https://8.8.8.8/resolve'') 2 \<lparr>addrlen = 16\<rparr>))"
    by (simp add: not_bootstrapped_def start_world_def app_init_def)
  from out_of_memory_is_fatal [OF o, of 2 "replicate 128 NUL" "0x1234" 10 12] o'
  show ?thesis by blast
qed

section \<open>The completion of a fetch\<close>

text \<open>
  Claim C2. Called with the pointer to a live request record that owns a live query
  buffer, \<^verbatim>\<open>https_resp_cb\<close> returns. It calls \<^verbatim>\<open>dns_server_respond\<close> once, with the
  server and the source address stored in the record and with the body and length it
  was given, when the body is not NULL, and not at all when it is NULL. In both cases it
  frees the query buffer and then the record, each once, and both are gone from the
  heap; it starts no fetch and leaves the rest of the state alone.
\<close>

theorem https_resp_cb_replies_and_releases:
  assumes "data \<noteq> NULL" and "heap w data = Some (Req r)" and "dns_req r \<noteq> NULL"
    and "dns_req r \<noteq> data" and "heap w (dns_req r) = Some (Buf q)"
  shows "\<exists>w'. https_resp_cb data buf buflen w = Inr w'
          \<and> filter is_respond (trace w') = filter is_respond (trace w) @
               (case buf of None \<Rightarrow> []
                | Some b \<Rightarrow> [Dns_server_respond (dns_server r) (raddr r) b buflen])
          \<and> (filter is_respond (trace w') = filter is_respond (trace w) \<longleftrightarrow> buf = None)
          \<and> filter is_free (trace w') = filter is_free (trace w) @ [Free (dns_req r), Free data]
          \<and> filter is_fetch (trace w') = filter is_fetch (trace w)
          \<and> heap w' = (heap w)(dns_req r := None, data := None)
          \<and> app w' = app w \<and> servers w' = servers w"
  unfolding https_resp_cb_live [OF assms] by (cases buf) simp_all

theorem https_resp_cb_replies_and_releases_witness:
  "(20::nat) \<noteq> NULL \<and> (10::nat) \<noteq> NULL
   \<and> (\<exists>w'. https_resp_cb 20 (Some ''answer'') 6
          ((start_world (app_init 1 ''https://8.8.8.8/resolve'') 2 \<lparr>addrlen = 16\<rparr>)
             \<lparr>heap := [10 \<mapsto> Buf ''query'',
                       20 \<mapsto> Req \<lparr>tx_id = 0x1234, raddr = ''client'', dns_server = 2, dns_req = 10\<rparr>]\<rparr>)
          = Inr w'
        \<and> filter is_respond (trace w') = [Dns_server_respond 2 ''client'' ''answer'' 6]
        \<and> filter is_free (trace w') = [Free 10, Free 20]
        \<and> heap w' 10 = None \<and> heap w' 20 = None)
   \<and> (\<exists>w'. https_resp_cb 20 None 0
          ((start_world (app_init 1 ''https://8.8.8.8/resolve'') 2 \<lparr>addrlen = 16\<rparr>)
             \<lparr>heap := [10 \<mapsto> Buf ''query'',
                       20 \<mapsto> Req \<lparr>tx_id = 0x1234, raddr = ''client'', dns_server = 2, dns_req = 10\<rparr>]\<rparr>)
          = Inr w'
        \<and> filter is_respond (trace w') = []
        \<and> filter is_free (trace w') = [Free 10, Free 20]
        \<and> heap w' 10 = None \<and> heap w' 20 = None)"
proof -
  let ?R = "\<lparr>tx_id = 0x1234, raddr = ''client'', dns_server = 2, dns_req = 10\<rparr>"
  let ?V = "(start_world (app_init 1 ''https://8.8.8.8/resolve'') 2 \<lparr>addrlen = 16\<rparr>)
             \<lparr>heap := [10 \<mapsto> Buf ''query'', 20 \<mapsto> Req ?R]\<rparr>"
  have n: "(20::nat) \<noteq> NULL" "(10::nat) \<noteq> NULL" by (simp_all add: NULL_def)
  have h: "heap ?V 20 = Some (Req ?R)" "dns_req ?R \<noteq> NULL" "dns_req ?R \<noteq> 20"
    "heap ?V (dns_req ?R) = Some (Buf ''query'')" "trace ?V = []"
    by (simp_all add: NULL_def start_world_def)
  note t = https_resp_cb_replies_and_releases [OF n(1) h(1,2,3,4)]
  have a: "\<exists>w'. https_resp_cb 20 (Some ''answer'') 6 ?V = Inr w'
        \<and> filter is_respond (trace w') = [Dns_server_respond 2 ''client'' ''answer'' 6]
        \<and> filter is_free (trace w') = [Free 10, Free 20]
        \<and> heap w' 10 = None \<and> heap w' 20 = None"
    using t [of "Some ''answer''" 6] unfolding h(5) by auto
  have b: "\<exists>w'. https_resp_cb 20 None 0 ?V = Inr w'
        \<and> filter is_respond (trace w') = []
        \<and> filter is_free (trace w') = [Free 10, Free 20]
        \<and> heap w' 10 = None \<and> heap w' 20 = None"
    using t [of None 0] unfolding h(5) by auto
  from n a b show ?thesis by blast
qed

section \<open>The body of the fetch\<close>

text \<open>
  Claim C4. When a query passes the gate (and \<^verbatim>\<open>calloc\<close> returns a fresh record,
  and the address is as long as the server's \<^verbatim>\<open>addrlen\<close> says), \<^verbatim>\<open>dns_server_cb\<close>
  returns having made one call, \<^verbatim>\<open>https_client_fetch\<close>, with the pointer and the length
  of the query it received, the resolver URL and the override list of \<^verbatim>\<open>app\<close>, and
  the new record as context. The bytes of the query buffer are what they were, and
  nothing on the heap but the new record has changed.
\<close>

theorem passthrough_unmodified:
  assumes "\<not> not_bootstrapped (app w)" and "new_req \<noteq> NULL" and "heap w new_req = None"
    and "servers w srv = Some s" and "addrlen s \<le> length addr"
    and "addrlen s \<le> sizeof_sockaddr_storage" and "heap w req_buf = Some (Buf payload)"
  shows "\<exists>w'. dns_server_cb srv addr tx req_buf req_len new_req w = Inr w'
          \<and> trace w' = trace w @
               [Https_client_fetch (https_client (app w)) (resolver_url (app w)) req_buf req_len
                  (resolv (app w)) new_req]
          \<and> heap w' req_buf = Some (Buf payload)
          \<and> (\<forall>p. p \<noteq> new_req \<longrightarrow> heap w' p = heap w p)"
proof -
  have "req_buf \<noteq> new_req" using assms(3,7) by auto
  then show ?thesis
    unfolding dns_server_cb_open [OF assms(1,2,4,5,6)] using assms(7) by simp
qed

theorem passthrough_unmodified_witness:
  "\<not> not_bootstrapped (app_init 1 ''https://8.8.8.8/resolve'') \<and> (20::nat) \<noteq> NULL
   \<and> (16::nat) \<le> length (replicate 128 CHR ''c'') \<and> (16::nat) \<le> sizeof_sockaddr_storage
   \<and> (\<exists>w'. dns_server_cb 2 (replicate 128 CHR ''c'') 0x1234 10 5 20
          ((start_world (app_init 1 ''https://8.8.8.8/resolve'') 2 \<lparr>addrlen = 16\<rparr>)
             \<lparr>heap := [10 \<mapsto> Buf ''query'']\<rparr>) = Inr w'
        \<and> trace w' = [Https_client_fetch 1 ''https://8.8.8.8/resolve'' 10 5 [] 20]
        \<and> heap w' 10 = Some (Buf ''query''))"
proof -
  let ?V = "(start_world (app_init 1 ''https://8.8.8.8/resolve'') 2 \<lparr>addrlen = 16\<rparr>)
             \<lparr>heap := [10 \<mapsto> Buf ''query'']\<rparr>"
  have o: "\<not> not_bootstrapped (app_init 1 ''https://8.8.8.8/resolve'')"
    by (simp add: not_bootstrapped_def app_init_def)
  have o': "\<not> not_bootstrapped (app ?V)" using o by (simp add: start_world_def)
  have n: "(20::nat) \<noteq> NULL" by (simp add: NULL_def)
  have h: "heap ?V 20 = None" "servers ?V 2 = Some \<lparr>addrlen = 16\<rparr>"
    "addrlen \<lparr>addrlen = 16\<rparr> \<le> length (replicate 128 CHR ''c'')"
    "addrlen \<lparr>addrlen = 16\<rparr> \<le> sizeof_sockaddr_storage"
    "heap ?V 10 = Some (Buf ''query'')"
    by (simp_all add: start_world_def sizeof_sockaddr_storage_def)
  have e: "trace ?V = []" "https_client (app ?V) = 1" "resolver_url (app ?V) = ''https://8.8.8.8/resolve''"
    "resolv (app ?V) = []"
    by (simp_all add: start_world_def app_init_def)
  have "\<exists>w'. dns_server_cb 2 (replicate 128 CHR ''c'') 0x1234 10 5 20 ?V = Inr w'
        \<and> trace w' = [Https_client_fetch 1 ''https://8.8.8.8/resolve'' 10 5 [] 20]
        \<and> heap w' 10 = Some (Buf ''query'')"
    using passthrough_unmodified [OF o' n h, of "0x1234" 5] unfolding e by auto
  with o n h(3,4) show ?thesis by simp
qed

section \<open>The gate before the first resolution\<close>

lemma ev_run_gated:
  assumes "not_bootstrapped (app w)"
    and "\<forall>i\<in>set ins. is_query i \<and> query_buf i \<noteq> NULL \<and> heap w (query_buf i) \<noteq> None"
    and "distinct (map query_buf ins)"
  shows "ev_run ins w =
           Inr (w\<lparr>heap := (\<lambda>p. if p \<in> query_buf ` set ins then None else heap w p),
                  trace := trace w @ concat (map (\<lambda>i.
                    [WLOG ''Query received before bootstrapping is completed, discarding.'',
                     Free (query_buf i)]) ins)\<rparr>)"
  using assms
proof (induction ins arbitrary: w)
  case Nil
  then show ?case by simp
next
  case (Cons i ins)
  from Cons.prems(2) obtain srv addr tx b n p where i: "i = Dns_query srv addr tx b n p"
    by (cases i) auto
  from Cons.prems(2) i obtain ob where b: "b \<noteq> NULL" "heap w b = Some ob" by auto
  let ?w1 = "w\<lparr>heap := (heap w)(b := None),
                  trace := trace w @
                    [WLOG ''Query received before bootstrapping is completed, discarding.'', Free b]\<rparr>"
  have d: "dispatch i w = Inr ?w1"
    unfolding i using dns_server_cb_gated [OF Cons.prems(1) b] by simp
  have g: "not_bootstrapped (app ?w1)" using Cons.prems(1) by simp
  have nb: "b \<notin> query_buf ` set ins" using Cons.prems(3) i by auto
  have a: "\<forall>j\<in>set ins. is_query j \<and> query_buf j \<noteq> NULL \<and> heap ?w1 (query_buf j) \<noteq> None"
    using Cons.prems(2) nb by auto
  have di: "distinct (map query_buf ins)" using Cons.prems(3) by simp
  have hp: "(\<lambda>p. if p \<in> query_buf ` set ins then None else heap ?w1 p) =
            (\<lambda>p. if p \<in> query_buf ` set (i # ins) then None else heap w p)"
    using i by (auto simp: fun_eq_iff)
  show ?case
    using d Cons.IH [OF g a di] hp i by simp
qed

text \<open>
  Claim C1. While \<^verbatim>\<open>using_dns_poller\<close> is set and the override list is NULL or has no
  data in its first node, any number of queries delivered to \<^verbatim>\<open>dns_server_cb\<close>, each
  with a live buffer of its own, are all handled without a fault: no
  \<^verbatim>\<open>https_client_fetch\<close> and no \<^verbatim>\<open>dns_server_respond\<close> is called, every query buffer
  is freed once and is gone from the heap, no request record is created (so no completion
  can later arrive for any of these queries), and \<^verbatim>\<open>app\<close> is unchanged, so the gate
  stays closed.
\<close>

theorem bootstrap_gate_fails_closed:
  assumes "not_bootstrapped (app w)"
    and "\<forall>i\<in>set ins. is_query i \<and> query_buf i \<noteq> NULL \<and> heap w (query_buf i) \<noteq> None"
    and "distinct (map query_buf ins)"
  shows "\<exists>w'. ev_run ins w = Inr w'
          \<and> filter is_fetch (trace w') = filter is_fetch (trace w)
          \<and> filter is_respond (trace w') = filter is_respond (trace w)
          \<and> filter is_free (trace w') = filter is_free (trace w) @ map (\<lambda>i. Free (query_buf i)) ins
          \<and> heap w' = (\<lambda>p. if p \<in> query_buf ` set ins then None else heap w p)
          \<and> (\<forall>p r. heap w' p = Some (Req r) \<longrightarrow> heap w p = Some (Req r))
          \<and> app w' = app w \<and> not_bootstrapped (app w')"
proof -
  have f: "filter is_fetch (concat (map (\<lambda>i.
                    [WLOG ''Query received before bootstrapping is completed, discarding.'',
                     Free (query_buf i)]) ins)) = []"
    by (induction ins) simp_all
  have r: "filter is_respond (concat (map (\<lambda>i.
                    [WLOG ''Query received before bootstrapping is completed, discarding.'',
                     Free (query_buf i)]) ins)) = []"
    by (induction ins) simp_all
  have e: "filter is_free (concat (map (\<lambda>i.
                    [WLOG ''Query received before bootstrapping is completed, discarding.'',
                     Free (query_buf i)]) ins)) = map (\<lambda>i. Free (query_buf i)) ins"
    by (induction ins) simp_all
  show ?thesis
    unfolding ev_run_gated [OF assms] using f r e assms(1) by simp
qed


theorem bootstrap_gate_fails_closed_witness:
  "not_bootstrapped ((app_init 1 ''https://dns.google/resolve'')\<lparr>using_dns_poller := 1\<rparr>)
   \<and> distinct [10::nat, 11] \<and> (10::nat) \<noteq> NULL \<and> (11::nat) \<noteq> NULL
   \<and> (\<exists>w'. ev_run [Dns_query 2 ''client-a'' 0x1234 10 5 20, Dns_query 2 ''client-b'' 0x1234 11 5 21]
          ((start_world ((app_init 1 ''https://dns.google/resolve'')\<lparr>using_dns_poller := 1\<rparr>)
              2 \<lparr>addrlen = 8\<rparr>)\<lparr>heap := [10 \<mapsto> Buf ''query'', 11 \<mapsto> Buf ''other'']\<rparr>) = Inr w'
        \<and> filter is_fetch (trace w') = [] \<and> filter is_respond (trace w') = []
        \<and> filter is_free (trace w') = [Free 10, Free 11]
        \<and> heap w' 10 = None \<and> heap w' 11 = None \<and> heap w' 20 = None \<and> heap w' 21 = None)"
proof -
  let ?a = "(app_init 1 ''https://dns.google/resolve'')\<lparr>using_dns_poller := 1\<rparr>"
  let ?V = "(start_world ?a 2 \<lparr>addrlen = 8\<rparr>)\<lparr>heap := [10 \<mapsto> Buf ''query'', 11 \<mapsto> Buf ''other'']\<rparr>"
  let ?ins = "[Dns_query 2 ''client-a'' 0x1234 10 5 20, Dns_query 2 ''client-b'' 0x1234 11 5 21]"
  have g: "not_bootstrapped ?a" by (simp add: not_bootstrapped_def app_init_def)
  have g': "not_bootstrapped (app ?V)" using g by (simp add: start_world_def)
  have n: "(10::nat) \<noteq> NULL" "(11::nat) \<noteq> NULL" by (simp_all add: NULL_def)
  have q: "\<forall>i\<in>set ?ins. is_query i \<and> query_buf i \<noteq> NULL \<and> heap ?V (query_buf i) \<noteq> None"
    using n by (simp add: start_world_def)
  have d: "distinct (map query_buf ?ins)" by simp
  have e: "trace ?V = []" by (simp add: start_world_def)
  have "\<exists>w'. ev_run ?ins ?V = Inr w'
        \<and> filter is_fetch (trace w') = [] \<and> filter is_respond (trace w') = []
        \<and> filter is_free (trace w') = [Free 10, Free 11]
        \<and> heap w' 10 = None \<and> heap w' 11 = None \<and> heap w' 20 = None \<and> heap w' 21 = None"
    using bootstrap_gate_fails_closed [OF g' q d] unfolding e
    by (auto simp: start_world_def)
  with g n show ?thesis by simp
qed

section \<open>Two queries in flight\<close>

lemma two_queries_dispatched:
  assumes gate: "\<not> not_bootstrapped (app w)"
    and srv: "servers w srv1 = Some s1" "servers w srv2 = Some s2"
      "addrlen s1 \<le> length addr1" "addrlen s2 \<le> length addr2"
      "addrlen s1 \<le> sizeof_sockaddr_storage" "addrlen s2 \<le> sizeof_sockaddr_storage"
    and recs: "p1 \<noteq> NULL" "p2 \<noteq> NULL"
  shows "ev_run [Dns_query srv1 addr1 tx1 b1 n1 p1, Dns_query srv2 addr2 tx2 b2 n2 p2] w =
     Inr (w\<lparr>heap := (heap w)
            (p1 \<mapsto> Req \<lparr>tx_id = tx1,
               raddr = take (addrlen s1) addr1 @ replicate (sizeof_sockaddr_storage - addrlen s1) NUL,
               dns_server = srv1, dns_req = b1\<rparr>,
             p2 \<mapsto> Req \<lparr>tx_id = tx2,
               raddr = take (addrlen s2) addr2 @ replicate (sizeof_sockaddr_storage - addrlen s2) NUL,
               dns_server = srv2, dns_req = b2\<rparr>),
          trace := trace w @
            [Https_client_fetch (https_client (app w)) (resolver_url (app w)) b1 n1 (resolv (app w)) p1,
             Https_client_fetch (https_client (app w)) (resolver_url (app w)) b2 n2 (resolv (app w)) p2]\<rparr>)"
proof -
  let ?w1 = "w\<lparr>heap := (heap w)(p1 \<mapsto> Req \<lparr>tx_id = tx1,
                      raddr = take (addrlen s1) addr1 @ replicate (sizeof_sockaddr_storage - addrlen s1) NUL,
                      dns_server = srv1, dns_req = b1\<rparr>),
                  trace := trace w @
                    [Https_client_fetch (https_client (app w)) (resolver_url (app w)) b1 n1
                       (resolv (app w)) p1]\<rparr>"
  have 1: "dns_server_cb srv1 addr1 tx1 b1 n1 p1 w = Inr ?w1"
    by (rule dns_server_cb_open [OF gate recs(1) srv(1,3,5)])
  have g1: "\<not> not_bootstrapped (app ?w1)" using gate by simp
  have s1: "servers ?w1 srv2 = Some s2" using srv(2) by simp
  note 2 = dns_server_cb_open [OF g1 recs(2) s1 srv(4,6), of tx2 b2 n2]
  show ?thesis using 1 2 by simp
qed

lemma two_completions:
  assumes r1: "heap w p1 = Some (Req r1)" and r2: "heap w p2 = Some (Req r2)"
    and ne: "p1 \<noteq> NULL" "p2 \<noteq> NULL" "p1 \<noteq> p2"
    and b: "dns_req r1 \<noteq> NULL" "dns_req r2 \<noteq> NULL" "dns_req r1 \<noteq> dns_req r2"
      "dns_req r1 \<noteq> p1" "dns_req r1 \<noteq> p2" "dns_req r2 \<noteq> p1" "dns_req r2 \<noteq> p2"
      "heap w (dns_req r1) = Some o1" "heap w (dns_req r2) = Some o2"
  shows "ev_run [Https_done p1 (Some a1) m1, Https_done p2 (Some a2) m2] w =
     Inr (w\<lparr>heap := (heap w)(dns_req r1 := None, p1 := None, dns_req r2 := None, p2 := None),
            trace := trace w @
              [Dns_server_respond (dns_server r1) (raddr r1) a1 m1, Free (dns_req r1), Free p1,
               Dns_server_respond (dns_server r2) (raddr r2) a2 m2, Free (dns_req r2), Free p2]\<rparr>)"
proof -
  let ?w1 = "w\<lparr>heap := (heap w)(dns_req r1 := None, p1 := None),
                  trace := trace w @
                    (case Some a1 of None \<Rightarrow> []
                     | Some b \<Rightarrow> [Dns_server_respond (dns_server r1) (raddr r1) b m1]) @
                    [Free (dns_req r1), Free p1]\<rparr>"
  have 1: "https_resp_cb p1 (Some a1) m1 w = Inr ?w1"
    by (rule https_resp_cb_live [OF ne(1) r1 b(1,4,8)])
  have h2: "heap ?w1 p2 = Some (Req r2)" using r2 ne(3) b(5) by simp
  have h3: "heap ?w1 (dns_req r2) = Some o2" using b(3,6,9) by auto
  note 2 = https_resp_cb_live [OF ne(2) h2 b(2,7) h3, of "Some a2" m2]
  show ?thesis using 1 2 by simp
qed

text \<open>
  Claim C3. Two queries that pass the gate while both are in flight, each with a live
  buffer of its own and each given by \<^verbatim>\<open>calloc\<close> a record that is not in use when it
  is handed out, whatever their transaction ids and source addresses (equal or not): the
  two records are different, each fetch is started with the
  query's own buffer and length and with the query's own record as context, and each
  record holds the query's transaction id, source address, server and buffer. When the
  two fetches complete, in either order, each reply goes through the server and to the
  source address stored in the record that the completing fetch carries as context, with
  the body that fetch delivered. The transaction id is stored and never read. Afterwards
  both buffers and both records are released.
\<close>

theorem correlation_by_record:
  assumes gate: "\<not> not_bootstrapped (app w)"
    and srv: "servers w srv1 = Some s1" "servers w srv2 = Some s2"
      "addrlen s1 \<le> length addr1" "addrlen s2 \<le> length addr2"
      "addrlen s1 \<le> sizeof_sockaddr_storage" "addrlen s2 \<le> sizeof_sockaddr_storage"
    and bufs: "b1 \<noteq> NULL" "b2 \<noteq> NULL" "b1 \<noteq> b2"
      "heap w b1 = Some (Buf q1)" "heap w b2 = Some (Buf q2)"
    and rec1: "p1 \<noteq> NULL" "heap w p1 = None"
    and rec2: "p2 \<noteq> NULL"
      "\<forall>w1. dns_server_cb srv1 addr1 tx1 b1 n1 p1 w = Inr w1 \<longrightarrow> heap w1 p2 = None"
  shows "p1 \<noteq> p2 \<and> (\<exists>w2. ev_run [Dns_query srv1 addr1 tx1 b1 n1 p1, Dns_query srv2 addr2 tx2 b2 n2 p2] w = Inr w2
          \<and> filter is_fetch (trace w2) = filter is_fetch (trace w) @
               [Https_client_fetch (https_client (app w)) (resolver_url (app w)) b1 n1 (resolv (app w)) p1,
                Https_client_fetch (https_client (app w)) (resolver_url (app w)) b2 n2 (resolv (app w)) p2]
          \<and> heap w2 p1 = Some (Req \<lparr>tx_id = tx1, raddr = recorded_addr s1 addr1,
                                     dns_server = srv1, dns_req = b1\<rparr>)
          \<and> heap w2 p2 = Some (Req \<lparr>tx_id = tx2, raddr = recorded_addr s2 addr2,
                                     dns_server = srv2, dns_req = b2\<rparr>)
          \<and> (\<exists>w4. ev_run [Https_done p2 (Some a2) m2, Https_done p1 (Some a1) m1] w2 = Inr w4
                \<and> filter is_respond (trace w4) = filter is_respond (trace w) @
                     [Dns_server_respond srv2 (recorded_addr s2 addr2) a2 m2,
                      Dns_server_respond srv1 (recorded_addr s1 addr1) a1 m1]
                \<and> heap w4 = (heap w)(b1 := None, b2 := None))
          \<and> (\<exists>w4. ev_run [Https_done p1 (Some a1) m1, Https_done p2 (Some a2) m2] w2 = Inr w4
                \<and> filter is_respond (trace w4) = filter is_respond (trace w) @
                     [Dns_server_respond srv1 (recorded_addr s1 addr1) a1 m1,
                      Dns_server_respond srv2 (recorded_addr s2 addr2) a2 m2]
                \<and> heap w4 = (heap w)(b1 := None, b2 := None)))"
proof -
  let ?w1 = "w\<lparr>heap := (heap w)(p1 \<mapsto> Req \<lparr>tx_id = tx1,
                      raddr = take (addrlen s1) addr1 @ replicate (sizeof_sockaddr_storage - addrlen s1) NUL,
                      dns_server = srv1, dns_req = b1\<rparr>),
                  trace := trace w @
                    [Https_client_fetch (https_client (app w)) (resolver_url (app w)) b1 n1
                       (resolv (app w)) p1]\<rparr>"
  have "dns_server_cb srv1 addr1 tx1 b1 n1 p1 w = Inr ?w1"
    by (rule dns_server_cb_open [OF gate rec1(1) srv(1,3,5)])
  with rec2(2) have fresh: "heap ?w1 p2 = None" by blast
  have recs: "p1 \<noteq> NULL" "p2 \<noteq> NULL" "p1 \<noteq> p2" "heap w p1 = None" "heap w p2 = None"
    using rec1 rec2(1) fresh by (auto split: if_splits)
  let ?r1 = "\<lparr>tx_id = tx1, raddr = recorded_addr s1 addr1, dns_server = srv1, dns_req = b1\<rparr>"
  let ?r2 = "\<lparr>tx_id = tx2, raddr = recorded_addr s2 addr2, dns_server = srv2, dns_req = b2\<rparr>"
  let ?f1 = "Https_client_fetch (https_client (app w)) (resolver_url (app w)) b1 n1 (resolv (app w)) p1"
  let ?f2 = "Https_client_fetch (https_client (app w)) (resolver_url (app w)) b2 n2 (resolv (app w)) p2"
  let ?w2 = "w\<lparr>heap := (heap w)(p1 \<mapsto> Req ?r1, p2 \<mapsto> Req ?r2), trace := trace w @ [?f1, ?f2]\<rparr>"
  have d: "ev_run [Dns_query srv1 addr1 tx1 b1 n1 p1, Dns_query srv2 addr2 tx2 b2 n2 p2] w = Inr ?w2"
    using two_queries_dispatched [OF gate srv recs(1,2)] by (simp add: recorded_addr_def)
  have ne: "b1 \<noteq> p1" "b1 \<noteq> p2" "b2 \<noteq> p1" "b2 \<noteq> p2"
    using bufs(4,5) recs(4,5) by auto
  have h1: "heap ?w2 p1 = Some (Req ?r1)" using recs(3) by simp
  have h2: "heap ?w2 p2 = Some (Req ?r2)" by simp
  have hb1: "heap ?w2 (dns_req ?r1) = Some (Buf q1)" using bufs(4) ne by simp
  have hb2: "heap ?w2 (dns_req ?r2) = Some (Buf q2)" using bufs(5) ne by simp
  have hp: "(heap ?w2)(b1 := None, p1 := None, b2 := None, p2 := None) = (heap w)(b1 := None, b2 := None)"
    "(heap ?w2)(b2 := None, p2 := None, b1 := None, p1 := None) = (heap w)(b1 := None, b2 := None)"
    using recs(4,5) by (auto simp: fun_eq_iff)
  have c12: "ev_run [Https_done p1 (Some a1) m1, Https_done p2 (Some a2) m2] ?w2 =
      Inr (?w2\<lparr>heap := (heap w)(b1 := None, b2 := None),
            trace := trace ?w2 @
              [Dns_server_respond srv1 (recorded_addr s1 addr1) a1 m1, Free b1, Free p1,
               Dns_server_respond srv2 (recorded_addr s2 addr2) a2 m2, Free b2, Free p2]\<rparr>)"
    using two_completions [OF h1 h2 recs(1,2,3), of "Buf q1" "Buf q2" a1 m1 a2 m2]
      bufs(1,2,3) ne hb1 hb2 hp(1) by simp
  have c21: "ev_run [Https_done p2 (Some a2) m2, Https_done p1 (Some a1) m1] ?w2 =
      Inr (?w2\<lparr>heap := (heap w)(b1 := None, b2 := None),
            trace := trace ?w2 @
              [Dns_server_respond srv2 (recorded_addr s2 addr2) a2 m2, Free b2, Free p2,
               Dns_server_respond srv1 (recorded_addr s1 addr1) a1 m1, Free b1, Free p1]\<rparr>)"
    using two_completions [OF h2 h1 recs(2,1) recs(3) [symmetric], of "Buf q2" "Buf q1" a2 m2 a1 m1]
      bufs(1,2,3) ne hb1 hb2 hp(2) by simp
  have "\<exists>w2. ev_run [Dns_query srv1 addr1 tx1 b1 n1 p1, Dns_query srv2 addr2 tx2 b2 n2 p2] w = Inr w2
          \<and> filter is_fetch (trace w2) = filter is_fetch (trace w) @ [?f1, ?f2]
          \<and> heap w2 p1 = Some (Req ?r1)
          \<and> heap w2 p2 = Some (Req ?r2)
          \<and> (\<exists>w4. ev_run [Https_done p2 (Some a2) m2, Https_done p1 (Some a1) m1] w2 = Inr w4
                \<and> filter is_respond (trace w4) = filter is_respond (trace w) @
                     [Dns_server_respond srv2 (recorded_addr s2 addr2) a2 m2,
                      Dns_server_respond srv1 (recorded_addr s1 addr1) a1 m1]
                \<and> heap w4 = (heap w)(b1 := None, b2 := None))
          \<and> (\<exists>w4. ev_run [Https_done p1 (Some a1) m1, Https_done p2 (Some a2) m2] w2 = Inr w4
                \<and> filter is_respond (trace w4) = filter is_respond (trace w) @
                     [Dns_server_respond srv1 (recorded_addr s1 addr1) a1 m1,
                      Dns_server_respond srv2 (recorded_addr s2 addr2) a2 m2]
                \<and> heap w4 = (heap w)(b1 := None, b2 := None))"
    apply (rule exI [of _ ?w2])
    unfolding c12 c21 d
    using recs(3) by simp
  with recs(3) show ?thesis by blast
qed


theorem correlation_by_record_witness:
  "\<not> not_bootstrapped (app_init 1 ''https://8.8.8.8/resolve'')
   \<and> (10::nat) \<noteq> NULL \<and> (11::nat) \<noteq> NULL \<and> (20::nat) \<noteq> NULL \<and> (21::nat) \<noteq> NULL
   \<and> (\<exists>w1. dns_server_cb 2 ''abcd'' 0x1234 10 5 20
          ((start_world (app_init 1 ''https://8.8.8.8/resolve'') 2 \<lparr>addrlen = 4\<rparr>)
             \<lparr>heap := [10 \<mapsto> Buf ''query'', 11 \<mapsto> Buf ''other'']\<rparr>) = Inr w1
        \<and> heap w1 21 = None)
   \<and> addrlen \<lparr>addrlen = 4\<rparr> \<le> length ''abcd'' \<and> addrlen \<lparr>addrlen = 4\<rparr> \<le> sizeof_sockaddr_storage
   \<and> (\<exists>w2. ev_run [Dns_query 2 ''abcd'' 0x1234 10 5 20, Dns_query 2 ''abcd'' 0x1234 11 5 21]
          ((start_world (app_init 1 ''https://8.8.8.8/resolve'') 2 \<lparr>addrlen = 4\<rparr>)
             \<lparr>heap := [10 \<mapsto> Buf ''query'', 11 \<mapsto> Buf ''other'']\<rparr>) = Inr w2
        \<and> filter is_fetch (trace w2) =
             [Https_client_fetch 1 ''https://8.8.8.8/resolve'' 10 5 [] 20,
              Https_client_fetch 1 ''https://8.8.8.8/resolve'' 11 5 [] 21]
        \<and> (\<exists>w4. ev_run [Https_done 21 (Some ''for-other'') 9, Https_done 20 (Some ''for-query'') 9] w2 = Inr w4
              \<and> filter is_respond (trace w4) =
                   [Dns_server_respond 2 (recorded_addr \<lparr>addrlen = 4\<rparr> ''abcd'') ''for-other'' 9,
                    Dns_server_respond 2 (recorded_addr \<lparr>addrlen = 4\<rparr> ''abcd'') ''for-query'' 9]
              \<and> heap w4 10 = None \<and> heap w4 11 = None \<and> heap w4 20 = None \<and> heap w4 21 = None))"
proof -
  let ?V = "(start_world (app_init 1 ''https://8.8.8.8/resolve'') 2 \<lparr>addrlen = 4\<rparr>)
             \<lparr>heap := [10 \<mapsto> Buf ''query'', 11 \<mapsto> Buf ''other'']\<rparr>"
  have o: "\<not> not_bootstrapped (app_init 1 ''https://8.8.8.8/resolve'')"
    by (simp add: not_bootstrapped_def app_init_def)
  have o': "\<not> not_bootstrapped (app ?V)" using o by (simp add: start_world_def)
  have n: "(10::nat) \<noteq> NULL" "(11::nat) \<noteq> NULL" "(10::nat) \<noteq> 11"
    and m: "(20::nat) \<noteq> NULL" "(21::nat) \<noteq> NULL" "(20::nat) \<noteq> 21"
    by (simp_all add: NULL_def)
  have s: "servers ?V 2 = Some \<lparr>addrlen = 4\<rparr>"
    "addrlen \<lparr>addrlen = 4\<rparr> \<le> length ''abcd''"
    "addrlen \<lparr>addrlen = 4\<rparr> \<le> sizeof_sockaddr_storage"
    by (simp_all add: start_world_def sizeof_sockaddr_storage_def)
  have h: "heap ?V 10 = Some (Buf ''query'')" "heap ?V 11 = Some (Buf ''other'')"
    "heap ?V 20 = None" "heap ?V 21 = None"
    by (simp_all add: start_world_def)
  have e: "trace ?V = []" "https_client (app ?V) = 1"
    "resolver_url (app ?V) = ''https://8.8.8.8/resolve''" "resolv (app ?V) = []"
    by (simp_all add: start_world_def app_init_def)
  have c: "dns_server_cb 2 ''abcd'' 0x1234 10 5 20 ?V =
      Inr (?V\<lparr>heap := (heap ?V)(20 \<mapsto> Req \<lparr>tx_id = 0x1234,
                      raddr = take (addrlen \<lparr>addrlen = 4\<rparr>) ''abcd'' @
                        replicate (sizeof_sockaddr_storage - addrlen \<lparr>addrlen = 4\<rparr>) NUL,
                      dns_server = 2, dns_req = 10\<rparr>),
                  trace := trace ?V @
                    [Https_client_fetch (https_client (app ?V)) (resolver_url (app ?V)) 10 5
                       (resolv (app ?V)) 20]\<rparr>)"
    by (rule dns_server_cb_open [OF o' m(1) s])
  have f: "\<forall>w1. dns_server_cb 2 ''abcd'' 0x1234 10 5 20 ?V = Inr w1 \<longrightarrow> heap w1 21 = None"
    unfolding c using h(4) by simp
  have f': "\<exists>w1. dns_server_cb 2 ''abcd'' 0x1234 10 5 20 ?V = Inr w1 \<and> heap w1 21 = None"
    unfolding c using h(4) by simp
  note t = correlation_by_record [OF o' s(1) s(1) s(2) s(2) s(3) s(3) n h(1,2) m(1) h(3) m(2) f,
      where ?tx2.0 = "0x1234" and ?n2.0 = 5 and ?a2.0 = "''for-other''" and ?m2.0 = 9
        and ?a1.0 = "''for-query''" and ?m1.0 = 9, THEN conjunct2]
  have "\<exists>w2. ev_run [Dns_query 2 ''abcd'' 0x1234 10 5 20, Dns_query 2 ''abcd'' 0x1234 11 5 21] ?V = Inr w2
        \<and> filter is_fetch (trace w2) =
             [Https_client_fetch 1 ''https://8.8.8.8/resolve'' 10 5 [] 20,
              Https_client_fetch 1 ''https://8.8.8.8/resolve'' 11 5 [] 21]
        \<and> (\<exists>w4. ev_run [Https_done 21 (Some ''for-other'') 9, Https_done 20 (Some ''for-query'') 9] w2 = Inr w4
              \<and> filter is_respond (trace w4) =
                   [Dns_server_respond 2 (recorded_addr \<lparr>addrlen = 4\<rparr> ''abcd'') ''for-other'' 9,
                    Dns_server_respond 2 (recorded_addr \<lparr>addrlen = 4\<rparr> ''abcd'') ''for-query'' 9]
              \<and> heap w4 10 = None \<and> heap w4 11 = None \<and> heap w4 20 = None \<and> heap w4 21 = None)"
    using t unfolding e h by (elim exE conjE, intro exI conjI) (assumption | simp add: h)+
  with o n(1,2) m(1,2) s(2,3) f' show ?thesis by blast
qed

end
